theory Spec2Isabelle
  imports Main
begin

section \<open>The browser side of the remote API\<close>

text \<open>
  The three pages (\<^verbatim>\<open>AttendancePage.tsx\<close>, \<^verbatim>\<open>MembershipPlansPage.tsx\<close>,
  \<^verbatim>\<open>UsersPage.tsx\<close>) are React function components: a tuple of \<^verbatim>\<open>useState\<close> cells,
  event handlers, and \<^verbatim>\<open>async\<close> functions that suspend at every \<^verbatim>\<open>await\<close> of an axios
  call. Each page is embedded as
  \<^item> a record of its \<^verbatim>\<open>useState\<close> cells;
  \<^item> a datatype of continuations, one constructor per \<^verbatim>\<open>await\<close> point, holding the
    local variables that are live across the \<^verbatim>\<open>await\<close>;
  \<^item> a configuration: the state, the outstanding calls (each with the continuation that
    waits for it), and the log of the requests sent so far;
  \<^item> a step function over events: a user action reaching a handler, or the settling of
    one outstanding call with an error (\<open>Inl\<close>, the promise rejects) or a payload
    (\<open>Inr\<close>, the promise resolves).
  A handler runs from the event to its first \<^verbatim>\<open>await\<close>, a continuation from one
  \<^verbatim>\<open>await\<close> to the next, both without interruption, as on the event loop. Every
  \<^verbatim>\<open>set...\<close> call of the source passes a value, never an updater function, so the
  state after a handler is the record updated in the order of the calls.

  A JavaScript \<^verbatim>\<open>number\<close> is a value of the type parameter \<open>'n\<close>; what the runtime does
  with numbers and dates (\<^verbatim>\<open>parseInt\<close>, \<^verbatim>\<open>parseFloat\<close>, \<^verbatim>\<open>toString\<close>, date-fns
  \<^verbatim>\<open>format\<close>) is a parameter of the model. A string is a list of code units below 256.
\<close>

record 'n jsenv =
  parseInt :: "string \<Rightarrow> 'n"
  parseFloat :: "string \<Rightarrow> 'n"
  numToString :: "'n \<Rightarrow> string"
  \<comment> \<open>\<^verbatim>\<open>format(new Date(iso), pattern)\<close>; \<open>None\<close> when date-fns throws RangeError (invalid date).\<close>
  format :: "string \<Rightarrow> string \<Rightarrow> string option"

text \<open>What a \<^verbatim>\<open>catch (err)\<close> block can read of a rejected axios call.\<close>

datatype errData = ErrData (message: "string option")

record 'n errResponse =
  status :: 'n
  statusText :: string
  data :: "errData option"

datatype 'n axiosError = AxiosError (response: "'n errResponse option")

text \<open>Truthiness of a string, and \<^verbatim>\<open>a || b\<close> where \<^verbatim>\<open>a\<close> is a string or undefined.\<close>

definition truthy :: "string \<Rightarrow> bool" where
  "truthy s = (s \<noteq> [])"

definition js_or :: "string option \<Rightarrow> string \<Rightarrow> string" where
  "js_or a b = (case a of None \<Rightarrow> b | Some s \<Rightarrow> if truthy s then s else b)"

text \<open>\<^verbatim>\<open>{msg && <p>{msg}</p>}\<close>: the paragraph is rendered for a non-empty string only.\<close>

definition shown :: "string option \<Rightarrow> string option" where
  "shown msg = (case msg of None \<Rightarrow> None | Some m \<Rightarrow> if truthy m then Some m else None)"

text \<open>
  \<^verbatim>\<open>String.prototype.trim\<close>: the white space and line terminator code units below 256
  (TAB, LF, VT, FF, CR, SP, NBSP) are stripped from both ends.
\<close>

definition isSpace :: "char \<Rightarrow> bool" where
  "isSpace ch = (ch \<in> {CHR 0x09, CHR 0x0A, CHR 0x0B, CHR 0x0C, CHR 0x0D, CHR 0x20, CHR 0xA0})"

definition trim :: "string \<Rightarrow> string" where
  "trim s = rev (dropWhile isSpace (rev (dropWhile isSpace s)))"

subsection \<open>Configurations and events\<close>

record ('s, 'k, 'q) config =
  st :: 's
  pending :: "(nat \<times> 'k) list"
  nextId :: nat
  sent :: "'q list"

datatype ('u, 'r) event = UI 'u | Settled nat 'r

definition setState :: "('s \<Rightarrow> 's) \<Rightarrow> ('s, 'k, 'q) config \<Rightarrow> ('s, 'k, 'q) config" where
  "setState f c = c\<lparr>st := f (st c)\<rparr>"

text \<open>A call that is not awaited by its caller: a new outstanding call.\<close>

definition spawn :: "'k \<Rightarrow> 'q \<Rightarrow> ('s, 'k, 'q) config \<Rightarrow> ('s, 'k, 'q) config" where
  "spawn k q c = c\<lparr>pending := pending c @ [(nextId c, k)], nextId := Suc (nextId c),
                   sent := sent c @ [q]\<rparr>"

text \<open>The next \<^verbatim>\<open>await\<close> of the async function that call \<open>tid\<close> belongs to.\<close>

definition await :: "nat \<Rightarrow> 'k \<Rightarrow> 'q \<Rightarrow> ('s, 'k, 'q) config \<Rightarrow> ('s, 'k, 'q) config" where
  "await tid k q c = c\<lparr>pending := pending c @ [(tid, k)], sent := sent c @ [q]\<rparr>"

definition waiting :: "('s, 'k, 'q) config \<Rightarrow> nat \<Rightarrow> 'k option" where
  "waiting c tid = map_of (pending c) tid"

definition settle :: "nat \<Rightarrow> ('s, 'k, 'q) config \<Rightarrow> ('s, 'k, 'q) config" where
  "settle tid c = c\<lparr>pending := filter (\<lambda>p. fst p \<noteq> tid) (pending c)\<rparr>"

section \<open>The remote API\<close>

text \<open>
  The objects that cross the API boundary. Field names are those of the TypeScript
  interfaces; a field name that two interfaces share carries a prefix in all but one.
  \<^verbatim>\<open>GET /users\<close> answers with whole member records; the attendance and the plans page
  declare and read only \<^verbatim>\<open>userId\<close> and \<^verbatim>\<open>name\<close> of them.
\<close>

record UserBasic =
  userId :: string
  name :: string

record 'n User = UserBasic +
  age :: 'n
  gender :: string
  contactNumber :: string
  membershipStatus :: string
  joiningDate :: string

record 'n MembershipPlan =
  planId :: 'n
  planName :: string
  price :: 'n
  durationMonths :: 'n
  featuresList :: string

record 'n PlanAssignmentDisplay =
  assignmentId :: 'n
  pa_userName :: string
  pa_planName :: string
  startDate :: string
  endDate :: string
  pa_userId :: "string option"
  pa_planId :: "'n option"

record 'n AttendanceRecordDisplay =
  attendanceId :: 'n
  ar_userId :: string
  ar_userName :: string
  checkInTime :: string

text \<open>Request bodies: \<^verbatim>\<open>userPayload\<close>, \<^verbatim>\<open>planPayload\<close>, \<^verbatim>\<open>assignmentPayload\<close>.\<close>

record 'n userPayload =
  up_name :: string
  up_age :: 'n
  up_gender :: string
  up_contactNumber :: string
  up_membershipStatus :: string
  up_joiningDate :: string

record 'n planPayload =
  pp_planName :: string
  pp_price :: 'n
  pp_durationMonths :: 'n
  pp_featuresList :: string

record 'n assignmentPayload =
  ap_userId :: string
  ap_planId :: 'n
  ap_startDate :: string

datatype 'n request =
    GET_users
  | POST_users "'n userPayload"
  | PUT_users string "'n userPayload"
  | DELETE_users string
  | GET_plans
  | POST_plans "'n planPayload"
  | PUT_plans 'n "'n planPayload"
  | DELETE_plans 'n
  | GET_plans_user_assignments string
  | POST_plans_assign "'n assignmentPayload"
  | GET_attendance_all
  | POST_attendance_checkin string

text \<open>
  The body of a resolved call. The check-in response is \<^verbatim>\<open>{userId, checkInTime}\<close>; the body
  of a resolved create, update, delete or assign call is never read (\<open>OtherData\<close>).
\<close>

datatype 'n payload =
    UsersData "'n User list"
  | PlansData "'n MembershipPlan list"
  | AssignmentsData "'n PlanAssignmentDisplay list"
  | AttendanceData "'n AttendanceRecordDisplay list"
  | CheckInData string string
  | OtherData

type_synonym 'n response = "'n axiosError + 'n payload"

section \<open>AttendancePage.tsx\<close>

record 'n attState =
  userIdInput :: string
  checkInMessage :: "string option"
  checkInError :: "string option"
  loadingCheckIn :: bool
  attendanceRecords :: "'n AttendanceRecordDisplay list"
  usersMap :: "string \<rightharpoonup> string"
  loadingLogs :: bool
  errorLogs :: "string option"

text \<open>
  \<open>UsersMapK\<close>: \<^verbatim>\<open>loadInitialData\<close> inside \<^verbatim>\<open>fetchUsersMap\<close>, at its \<^verbatim>\<open>await\<close>.
  \<open>LogsK\<close>: \<^verbatim>\<open>fetchAttendanceLogs\<close> at its \<^verbatim>\<open>await\<close>. \<open>CheckInK\<close>: \<^verbatim>\<open>handleCheckIn\<close> at its
  \<^verbatim>\<open>await\<close>, with the \<^verbatim>\<open>usersMap\<close> of the render whose closure it is.
\<close>

datatype attTask =
    UsersMapK
  | LogsK
  | CheckInK "string \<rightharpoonup> string"

datatype attUI = ChangeInput string | SubmitForm

type_synonym 'n attConfig = "('n attState, attTask, 'n request) config"

definition attInitialState :: "'n attState" where
  "attInitialState = \<lparr>userIdInput = [], checkInMessage = None, checkInError = None,
     loadingCheckIn = False, attendanceRecords = [], usersMap = Map.empty,
     loadingLogs = True, errorLogs = None\<rparr>"

text \<open>\<^verbatim>\<open>fetchAttendanceLogs\<close>, up to its \<^verbatim>\<open>await\<close>; \<open>spawn\<close> where the caller does not await it.\<close>

definition fetchAttendanceLogs_awaited :: "nat \<Rightarrow> 'n attConfig \<Rightarrow> 'n attConfig" where
  "fetchAttendanceLogs_awaited tid c =
     (let c = setState (\<lambda>s. s\<lparr>loadingLogs := True\<rparr>) c
      in await tid LogsK GET_attendance_all c)"

definition fetchAttendanceLogs :: "'n attConfig \<Rightarrow> 'n attConfig" where
  "fetchAttendanceLogs c =
     (let c = setState (\<lambda>s. s\<lparr>loadingLogs := True\<rparr>) c
      in spawn LogsK GET_attendance_all c)"

definition fetchAttendanceLogs_resume ::
  "'n jsenv \<Rightarrow> 'n response \<Rightarrow> 'n attConfig \<Rightarrow> 'n attConfig" where
  "fetchAttendanceLogs_resume js r c =
     (let c = (case r of
                 Inr (AttendanceData recs) \<Rightarrow>
                   setState (\<lambda>s. s\<lparr>attendanceRecords := recs, errorLogs := None\<rparr>) c
               | Inr _ \<Rightarrow> c
               | Inl err \<Rightarrow>
                   (case response err of
                      Some resp \<Rightarrow>
                        setState (\<lambda>s. s\<lparr>errorLogs := Some (''Failed to load attendance logs: ''
                          @ numToString js (status resp) @ '' - '' @ statusText resp)\<rparr>) c
                    | None \<Rightarrow>
                        setState (\<lambda>s. s\<lparr>errorLogs :=
                          Some ''Failed to load attendance logs. Network error or backend down.''\<rparr>) c))
      in setState (\<lambda>s. s\<lparr>loadingLogs := False\<rparr>) c)"

text \<open>\<^verbatim>\<open>fetchUsersMap\<close>: later entries of the response overwrite earlier ones with the same id.\<close>

definition buildUsersMap :: "'n User list \<Rightarrow> (string \<rightharpoonup> string)" where
  "buildUsersMap us = foldl (\<lambda>m u. m(userId u \<mapsto> name u)) Map.empty us"

definition fetchUsersMap_resume :: "'n response \<Rightarrow> 'n attConfig \<Rightarrow> 'n attConfig" where
  "fetchUsersMap_resume r c =
     (case r of
        Inr (UsersData us) \<Rightarrow>
          setState (\<lambda>s. s\<lparr>usersMap := buildUsersMap us, errorLogs := None\<rparr>) c
      | Inr _ \<Rightarrow> c
      | Inl err \<Rightarrow>
          setState (\<lambda>s. s\<lparr>errorLogs :=
            Some ''Failed to load user names for attendance records.''\<rparr>) c)"

text \<open>
  \<^verbatim>\<open>loadInitialData\<close>: \<^verbatim>\<open>await fetchUsersMap(); await fetchAttendanceLogs();\<close>. The first
  function catches its own error, so the second is called whatever the first call gave.
\<close>

definition loadInitialData :: "'n attConfig \<Rightarrow> 'n attConfig" where
  "loadInitialData c = spawn UsersMapK GET_users c"

definition loadInitialData_resume ::
  "nat \<Rightarrow> 'n response \<Rightarrow> 'n attConfig \<Rightarrow> 'n attConfig" where
  "loadInitialData_resume tid r c =
     (let c = fetchUsersMap_resume r c
      in fetchAttendanceLogs_awaited tid c)"

text \<open>\<^verbatim>\<open>handleCheckIn\<close>, up to its \<^verbatim>\<open>await\<close>.\<close>

definition handleCheckIn :: "string \<Rightarrow> 'n attConfig \<Rightarrow> 'n attConfig" where
  "handleCheckIn uid c =
     (let c = setState (\<lambda>s. s\<lparr>checkInMessage := None, checkInError := None,
                               loadingCheckIn := True\<rparr>) c
      in spawn (CheckInK (usersMap (st c))) (POST_attendance_checkin uid) c)"

text \<open>The \<^verbatim>\<open>catch\<close> block of \<^verbatim>\<open>handleCheckIn\<close>, on \<^verbatim>\<open>err.response\<close>.\<close>

definition checkInErrorText :: "'n errResponse option \<Rightarrow> string" where
  "checkInErrorText resp =
     (case resp of
        Some rp \<Rightarrow>
          (case data rp of
             Some d \<Rightarrow>
               (case message d of
                  Some m \<Rightarrow> if truthy m then m
                            else ''Failed to check in. Please ensure User ID is valid.''
                | None \<Rightarrow> ''Failed to check in. Please ensure User ID is valid.'')
           | None \<Rightarrow> ''Failed to check in. Please ensure User ID is valid.'')
      | None \<Rightarrow> ''Failed to check in. Please ensure User ID is valid.'')"

definition checkInUserName :: "(string \<rightharpoonup> string) \<Rightarrow> string \<Rightarrow> string" where
  "checkInUserName um checkedInUserId = js_or (um checkedInUserId) (take 8 checkedInUserId @ ''...'')"

text \<open>
  \<^verbatim>\<open>handleCheckIn\<close> after its \<^verbatim>\<open>await\<close>. An invalid \<^verbatim>\<open>checkInTime\<close> makes \<^verbatim>\<open>format\<close>
  throw inside the \<^verbatim>\<open>try\<close>: the \<^verbatim>\<open>catch\<close> block then sees an error with no \<^verbatim>\<open>response\<close>.
\<close>

definition handleCheckIn_resume ::
  "'n jsenv \<Rightarrow> (string \<rightharpoonup> string) \<Rightarrow> 'n response \<Rightarrow> 'n attConfig \<Rightarrow> 'n attConfig" where
  "handleCheckIn_resume js um r c =
     (let c = (case r of
                 Inr (CheckInData checkedInUserId t) \<Rightarrow>
                   (let userName = checkInUserName um checkedInUserId
                    in case format js t ''HH:mm:ss'' of
                         Some hms \<Rightarrow>
                           (let c = setState (\<lambda>s. s\<lparr>checkInMessage := Some (''User '' @ userName
                                      @ '' checked in successfully at '' @ hms @ ''!''),
                                      userIdInput := []\<rparr>) c
                            in fetchAttendanceLogs c)
                       | None \<Rightarrow>
                           setState (\<lambda>s. s\<lparr>checkInError := Some (checkInErrorText (None :: 'n errResponse option))\<rparr>) c)
               | Inr _ \<Rightarrow> c
               | Inl err \<Rightarrow>
                   setState (\<lambda>s. s\<lparr>checkInError := Some (checkInErrorText (response err))\<rparr>) c)
      in setState (\<lambda>s. s\<lparr>loadingCheckIn := False\<rparr>) c)"

definition handleManualCheckInSubmit :: "'n attConfig \<Rightarrow> 'n attConfig" where
  "handleManualCheckInSubmit c =
     (if truthy (trim (userIdInput (st c))) then handleCheckIn (trim (userIdInput (st c))) c
      else c)"

text \<open>
  What the JSX lets through: the submit button carries \<^verbatim>\<open>disabled={loadingCheckIn}\<close>, and a
  form whose submit button is disabled is not submitted. The \<^verbatim>\<open>required\<close> attribute of the
  input is left out: the handler is reached with an empty input too.
\<close>

fun attEnabled :: "attUI \<Rightarrow> 'n attState \<Rightarrow> bool" where
  "attEnabled (ChangeInput v) s = True"
| "attEnabled SubmitForm s = (\<not> loadingCheckIn s)"

fun attHandle :: "attUI \<Rightarrow> 'n attConfig \<Rightarrow> 'n attConfig" where
  "attHandle (ChangeInput v) c = setState (\<lambda>s. s\<lparr>userIdInput := v\<rparr>) c"
| "attHandle SubmitForm c = handleManualCheckInSubmit c"

text \<open>
  A call settles with a body of the shape its endpoint gives, or with an error; an event
  with a body of another shape changes nothing, so the branches \<open>Inr _\<close> of the
  continuations above are never taken.
\<close>

fun attAccepts :: "attTask \<Rightarrow> 'n response \<Rightarrow> bool" where
  "attAccepts k (Inl err) = True"
| "attAccepts UsersMapK (Inr (UsersData us)) = True"
| "attAccepts LogsK (Inr (AttendanceData recs)) = True"
| "attAccepts (CheckInK um) (Inr (CheckInData u t)) = True"
| "attAccepts UsersMapK (Inr p) = False"
| "attAccepts LogsK (Inr p) = False"
| "attAccepts (CheckInK um) (Inr p) = False"

fun attResume :: "'n jsenv \<Rightarrow> attTask \<Rightarrow> nat \<Rightarrow> 'n response \<Rightarrow> 'n attConfig \<Rightarrow> 'n attConfig" where
  "attResume js UsersMapK tid r c = loadInitialData_resume tid r c"
| "attResume js LogsK tid r c = fetchAttendanceLogs_resume js r c"
| "attResume js (CheckInK um) tid r c = handleCheckIn_resume js um r c"

fun attStep :: "'n jsenv \<Rightarrow> (attUI, 'n response) event \<Rightarrow> 'n attConfig \<Rightarrow> 'n attConfig" where
  "attStep js (UI u) c = (if attEnabled u (st c) then attHandle u c else c)"
| "attStep js (Settled tid r) c =
     (case waiting c tid of
        None \<Rightarrow> c
      | Some k \<Rightarrow> if attAccepts k r then attResume js k tid r (settle tid c) else c)"

definition attRun ::
  "'n jsenv \<Rightarrow> (attUI, 'n response) event list \<Rightarrow> 'n attConfig \<Rightarrow> 'n attConfig" where
  "attRun js evs c = foldl (\<lambda>c ev. attStep js ev c) c evs"

text \<open>The page after its first render and the run of its effect.\<close>

definition attMounted :: "'n attConfig" where
  "attMounted = loadInitialData \<lparr>st = attInitialState, pending = [], nextId = 0, sent = []\<rparr>"

text \<open>The attendance table as rendered; \<open>None\<close> when a \<^verbatim>\<open>format\<close> call of the render throws.\<close>

record attRow =
  idCell :: string
  userIdCell :: string
  nameCell :: string
  timeCell :: string

datatype attTable = LoadingLogs | NoRecords | Rows "attRow list"

definition renderRow :: "'n jsenv \<Rightarrow> 'n AttendanceRecordDisplay \<Rightarrow> attRow option" where
  "renderRow js rc =
     (case format js (checkInTime rc) ''yyyy-MM-dd HH:mm:ss'' of
        None \<Rightarrow> None
      | Some t \<Rightarrow> Some \<lparr>idCell = numToString js (attendanceId rc),
                        userIdCell = (if truthy (ar_userId rc) then take 8 (ar_userId rc) @ ''...''
                                      else ''N/A''),
                        nameCell = js_or (Some (ar_userName rc)) ''Unknown User'',
                        timeCell = t\<rparr>)"

definition renderLogs :: "'n jsenv \<Rightarrow> 'n attState \<Rightarrow> attTable option" where
  "renderLogs js s =
     (if loadingLogs s \<and> attendanceRecords s = [] then Some LoadingLogs
      else if attendanceRecords s = [] then Some NoRecords
      else map_option Rows (those (map (renderRow js) (attendanceRecords s))))"

section \<open>MembershipPlansPage.tsx\<close>

record planForm =
  pf_planName :: string
  pf_price :: string
  pf_durationMonths :: string
  pf_featuresList :: string

record assignForm =
  af_userId :: string
  af_planId :: string
  af_startDate :: string

record 'n plansState =
  plans :: "'n MembershipPlan list"
  users :: "UserBasic list"
  planAssignments :: "'n PlanAssignmentDisplay list"
  loading :: bool
  error :: "string option"
  showPlanForm :: bool
  editingPlan :: "'n MembershipPlan option"
  planFormData :: planForm
  showAssignForm :: bool
  assignFormData :: assignForm

text \<open>
  One constructor per \<^verbatim>\<open>await\<close>. \<open>AllLoopK assignments rest\<close> is the \<^verbatim>\<open>for\<close> loop of
  \<^verbatim>\<open>fetchAllPlanAssignments\<close> waiting for the assignments of the current member: the array
  filled so far, and the members after the current one.
\<close>

datatype 'n plansTask =
    FetchPlansK
  | FetchUsersK
  | AllUsersK
  | AllLoopK "'n PlanAssignmentDisplay list" "'n User list"
  | PlanSubmitK
  | DeletePlanK
  | AssignSubmitK

datatype planField = PlanName | Price | DurationMonths | FeaturesList

datatype assignField = AssignUserId | AssignPlanId | AssignStartDate

text \<open>
  The user actions. \<open>DeletePlanClick planId answer\<close> carries what \<^verbatim>\<open>window.confirm\<close>
  returns.
\<close>

datatype 'n plansUI =
    TogglePlanForm
  | ToggleAssignForm
  | PlanInputChange planField string
  | PlanFormSubmit
  | CancelEdit
  | AssignInputChange assignField string
  | AssignFormSubmit
  | EditPlanClick "'n MembershipPlan"
  | DeletePlanClick 'n bool

type_synonym 'n plansConfig = "('n plansState, 'n plansTask, 'n request) config"

definition emptyPlanForm :: planForm where
  "emptyPlanForm = \<lparr>pf_planName = [], pf_price = [], pf_durationMonths = [], pf_featuresList = []\<rparr>"

text \<open>\<open>today\<close> is \<^verbatim>\<open>format(new Date(), 'yyyy-MM-dd')\<close> at the moment of the call.\<close>

definition emptyAssignForm :: "string \<Rightarrow> assignForm" where
  "emptyAssignForm today = \<lparr>af_userId = [], af_planId = [], af_startDate = today\<rparr>"

definition plansInitialState :: "string \<Rightarrow> 'n plansState" where
  "plansInitialState today = \<lparr>plans = [], users = [], planAssignments = [], loading = True,
     error = None, showPlanForm = False, editingPlan = None, planFormData = emptyPlanForm,
     showAssignForm = False, assignFormData = emptyAssignForm today\<rparr>"

definition fetchPlans :: "'n plansConfig \<Rightarrow> 'n plansConfig" where
  "fetchPlans c =
     (let c = setState (\<lambda>s. s\<lparr>loading := True\<rparr>) c
      in spawn FetchPlansK GET_plans c)"

definition fetchPlans_resume :: "'n response \<Rightarrow> 'n plansConfig \<Rightarrow> 'n plansConfig" where
  "fetchPlans_resume r c =
     (let c = (case r of
                 Inr (PlansData ps) \<Rightarrow>
                   (let c = setState (\<lambda>s. s\<lparr>plans := ps\<rparr>) c
                    in setState (\<lambda>s. s\<lparr>error := None\<rparr>) c)
               | Inr _ \<Rightarrow> c
               | Inl err \<Rightarrow>
                   setState (\<lambda>s. s\<lparr>error := Some
                     ''Failed to load plans. Please ensure the backend is running and you are logged in.''\<rparr>) c)
      in setState (\<lambda>s. s\<lparr>loading := False\<rparr>) c)"

definition fetchUsersForAssignment :: "'n plansConfig \<Rightarrow> 'n plansConfig" where
  "fetchUsersForAssignment c = spawn FetchUsersK GET_users c"

definition fetchUsersForAssignment_resume :: "'n response \<Rightarrow> 'n plansConfig \<Rightarrow> 'n plansConfig" where
  "fetchUsersForAssignment_resume r c =
     (case r of
        Inr (UsersData us) \<Rightarrow>
          setState (\<lambda>s. s\<lparr>users := map (\<lambda>user. \<lparr>userId = userId user, name = name user\<rparr>) us\<rparr>) c
      | Inr _ \<Rightarrow> c
      | Inl err \<Rightarrow> c)"

text \<open>
  \<^verbatim>\<open>fetchAllPlanAssignments\<close>. The \<^verbatim>\<open>catch\<close> and \<^verbatim>\<open>finally\<close> blocks, then the \<^verbatim>\<open>for\<close> loop
  at the head of an iteration (with what follows the loop when no member is left), then the
  function up to its first \<^verbatim>\<open>await\<close> and after each \<^verbatim>\<open>await\<close>.
\<close>

definition fetchAllPlanAssignments_failed :: "'n plansConfig \<Rightarrow> 'n plansConfig" where
  "fetchAllPlanAssignments_failed c =
     (let c = setState (\<lambda>s. s\<lparr>error := Some ''Failed to load plan assignments.''\<rparr>) c
      in setState (\<lambda>s. s\<lparr>loading := False\<rparr>) c)"

definition fetchAllPlanAssignments_loop ::
  "nat \<Rightarrow> 'n PlanAssignmentDisplay list \<Rightarrow> 'n User list \<Rightarrow> 'n plansConfig \<Rightarrow> 'n plansConfig" where
  "fetchAllPlanAssignments_loop tid assignments us c =
     (case us of
        user # rest \<Rightarrow>
          await tid (AllLoopK assignments rest) (GET_plans_user_assignments (userId user)) c
      | [] \<Rightarrow>
          (let c = setState (\<lambda>s. s\<lparr>planAssignments := assignments\<rparr>) c
           in setState (\<lambda>s. s\<lparr>loading := False\<rparr>) c))"

definition fetchAllPlanAssignments :: "'n plansConfig \<Rightarrow> 'n plansConfig" where
  "fetchAllPlanAssignments c =
     (let c = setState (\<lambda>s. s\<lparr>loading := True\<rparr>) c
      in spawn AllUsersK GET_users c)"

definition fetchAllPlanAssignments_users ::
  "nat \<Rightarrow> 'n response \<Rightarrow> 'n plansConfig \<Rightarrow> 'n plansConfig" where
  "fetchAllPlanAssignments_users tid r c =
     (case r of
        Inr (UsersData us) \<Rightarrow> fetchAllPlanAssignments_loop tid [] us c
      | Inr _ \<Rightarrow> c
      | Inl err \<Rightarrow> fetchAllPlanAssignments_failed c)"

definition fetchAllPlanAssignments_next ::
  "nat \<Rightarrow> 'n PlanAssignmentDisplay list \<Rightarrow> 'n User list \<Rightarrow> 'n response \<Rightarrow>
   'n plansConfig \<Rightarrow> 'n plansConfig" where
  "fetchAllPlanAssignments_next tid assignments rest r c =
     (case r of
        Inr (AssignmentsData userAssignments) \<Rightarrow>
          fetchAllPlanAssignments_loop tid (assignments @ userAssignments) rest c
      | Inr _ \<Rightarrow> c
      | Inl err \<Rightarrow> fetchAllPlanAssignments_failed c)"

fun setPlanField :: "planField \<Rightarrow> string \<Rightarrow> planForm \<Rightarrow> planForm" where
  "setPlanField PlanName v f = f\<lparr>pf_planName := v\<rparr>"
| "setPlanField Price v f = f\<lparr>pf_price := v\<rparr>"
| "setPlanField DurationMonths v f = f\<lparr>pf_durationMonths := v\<rparr>"
| "setPlanField FeaturesList v f = f\<lparr>pf_featuresList := v\<rparr>"

definition handlePlanInputChange :: "planField \<Rightarrow> string \<Rightarrow> 'n plansConfig \<Rightarrow> 'n plansConfig" where
  "handlePlanInputChange fld v c =
     setState (\<lambda>s. s\<lparr>planFormData := setPlanField fld v (planFormData s)\<rparr>) c"

definition handlePlanFormSubmit :: "'n jsenv \<Rightarrow> 'n plansConfig \<Rightarrow> 'n plansConfig" where
  "handlePlanFormSubmit js c =
     (let c = setState (\<lambda>s. s\<lparr>error := None\<rparr>) c;
          c = setState (\<lambda>s. s\<lparr>loading := True\<rparr>) c;
          fd = planFormData (st c);
          planPayload = \<lparr>pp_planName = pf_planName fd,
                         pp_price = parseFloat js (pf_price fd),
                         pp_durationMonths = parseInt js (pf_durationMonths fd),
                         pp_featuresList = pf_featuresList fd\<rparr>
      in case editingPlan (st c) of
           Some p \<Rightarrow> spawn PlanSubmitK (PUT_plans (planId p) planPayload) c
         | None \<Rightarrow> spawn PlanSubmitK (POST_plans planPayload) c)"

definition handlePlanFormSubmit_resume :: "'n response \<Rightarrow> 'n plansConfig \<Rightarrow> 'n plansConfig" where
  "handlePlanFormSubmit_resume r c =
     (let c = (case r of
                 Inr _ \<Rightarrow>
                   (let c = setState (\<lambda>s. s\<lparr>showPlanForm := False\<rparr>) c;
                        c = setState (\<lambda>s. s\<lparr>editingPlan := None\<rparr>) c;
                        c = setState (\<lambda>s. s\<lparr>planFormData := emptyPlanForm\<rparr>) c;
                        c = fetchPlans c
                    in fetchAllPlanAssignments c)
               | Inl err \<Rightarrow>
                   setState (\<lambda>s. s\<lparr>error := Some ''Failed to save plan. Please check your input.''\<rparr>) c)
      in setState (\<lambda>s. s\<lparr>loading := False\<rparr>) c)"

definition handleEditPlanClick ::
  "'n jsenv \<Rightarrow> 'n MembershipPlan \<Rightarrow> 'n plansConfig \<Rightarrow> 'n plansConfig" where
  "handleEditPlanClick js plan c =
     (let c = setState (\<lambda>s. s\<lparr>editingPlan := Some plan\<rparr>) c;
          c = setState (\<lambda>s. s\<lparr>planFormData :=
                \<lparr>pf_planName = planName plan,
                 pf_price = numToString js (price plan),
                 pf_durationMonths = numToString js (durationMonths plan),
                 pf_featuresList = featuresList plan\<rparr>\<rparr>) c
      in setState (\<lambda>s. s\<lparr>showPlanForm := True\<rparr>) c)"

definition handleDeletePlanClick :: "'n \<Rightarrow> bool \<Rightarrow> 'n plansConfig \<Rightarrow> 'n plansConfig" where
  "handleDeletePlanClick pid confirmed c =
     (if confirmed then
        (let c = setState (\<lambda>s. s\<lparr>loading := True\<rparr>) c
         in spawn DeletePlanK (DELETE_plans pid) c)
      else c)"

definition handleDeletePlanClick_resume :: "'n response \<Rightarrow> 'n plansConfig \<Rightarrow> 'n plansConfig" where
  "handleDeletePlanClick_resume r c =
     (let c = (case r of
                 Inr _ \<Rightarrow>
                   (let c = fetchPlans c
                    in fetchAllPlanAssignments c)
               | Inl err \<Rightarrow> setState (\<lambda>s. s\<lparr>error := Some ''Failed to delete plan.''\<rparr>) c)
      in setState (\<lambda>s. s\<lparr>loading := False\<rparr>) c)"

fun setAssignField :: "assignField \<Rightarrow> string \<Rightarrow> assignForm \<Rightarrow> assignForm" where
  "setAssignField AssignUserId v f = f\<lparr>af_userId := v\<rparr>"
| "setAssignField AssignPlanId v f = f\<lparr>af_planId := v\<rparr>"
| "setAssignField AssignStartDate v f = f\<lparr>af_startDate := v\<rparr>"

definition handleAssignInputChange ::
  "assignField \<Rightarrow> string \<Rightarrow> 'n plansConfig \<Rightarrow> 'n plansConfig" where
  "handleAssignInputChange fld v c =
     setState (\<lambda>s. s\<lparr>assignFormData := setAssignField fld v (assignFormData s)\<rparr>) c"

definition handleAssignFormSubmit :: "'n jsenv \<Rightarrow> 'n plansConfig \<Rightarrow> 'n plansConfig" where
  "handleAssignFormSubmit js c =
     (let c = setState (\<lambda>s. s\<lparr>error := None\<rparr>) c;
          c = setState (\<lambda>s. s\<lparr>loading := True\<rparr>) c;
          fd = assignFormData (st c);
          assignmentPayload = \<lparr>ap_userId = af_userId fd,
                               ap_planId = parseInt js (af_planId fd),
                               ap_startDate = af_startDate fd\<rparr>
      in spawn AssignSubmitK (POST_plans_assign assignmentPayload) c)"

definition handleAssignFormSubmit_resume ::
  "string \<Rightarrow> 'n response \<Rightarrow> 'n plansConfig \<Rightarrow> 'n plansConfig" where
  "handleAssignFormSubmit_resume today r c =
     (let c = (case r of
                 Inr _ \<Rightarrow>
                   (let c = setState (\<lambda>s. s\<lparr>showAssignForm := False\<rparr>) c;
                        c = setState (\<lambda>s. s\<lparr>assignFormData := emptyAssignForm today\<rparr>) c;
                        c = fetchAllPlanAssignments c
                    in fetchUsersForAssignment c)
               | Inl err \<Rightarrow>
                   setState (\<lambda>s. s\<lparr>error := Some ''Failed to assign plan. Ensure user and plan exist.''\<rparr>) c)
      in setState (\<lambda>s. s\<lparr>loading := False\<rparr>) c)"

text \<open>The \<^verbatim>\<open>onClick\<close> closures of the two toggle buttons and of the Cancel Edit button.\<close>

definition togglePlanFormClick :: "'n plansConfig \<Rightarrow> 'n plansConfig" where
  "togglePlanFormClick c =
     (let shownBefore = showPlanForm (st c);
          c = setState (\<lambda>s. s\<lparr>showPlanForm := \<not> shownBefore\<rparr>) c;
          c = setState (\<lambda>s. s\<lparr>editingPlan := None\<rparr>) c;
          c = setState (\<lambda>s. s\<lparr>planFormData := emptyPlanForm\<rparr>) c
      in setState (\<lambda>s. s\<lparr>showAssignForm := False\<rparr>) c)"

definition toggleAssignFormClick :: "string \<Rightarrow> 'n plansConfig \<Rightarrow> 'n plansConfig" where
  "toggleAssignFormClick today c =
     (let shownBefore = showAssignForm (st c);
          c = setState (\<lambda>s. s\<lparr>showAssignForm := \<not> shownBefore\<rparr>) c;
          c = setState (\<lambda>s. s\<lparr>assignFormData := emptyAssignForm today\<rparr>) c
      in setState (\<lambda>s. s\<lparr>showPlanForm := False\<rparr>) c)"

definition cancelEditClick :: "'n plansConfig \<Rightarrow> 'n plansConfig" where
  "cancelEditClick c =
     (let c = setState (\<lambda>s. s\<lparr>editingPlan := None\<rparr>) c;
          c = setState (\<lambda>s. s\<lparr>showPlanForm := False\<rparr>) c
      in setState (\<lambda>s. s\<lparr>planFormData := emptyPlanForm\<rparr>) c)"

text \<open>
  What the JSX renders: a form and its controls exist while its \<^verbatim>\<open>show...\<close> flag is set,
  both submit buttons carry \<^verbatim>\<open>disabled={loading}\<close>, Cancel Edit exists while a plan is
  being edited, and the Edit and Delete buttons exist for the rows of a non-empty
  \<^verbatim>\<open>plans\<close> list. The \<^verbatim>\<open>required\<close> attributes of the inputs are left out.
\<close>

fun plansEnabled :: "'n plansUI \<Rightarrow> 'n plansState \<Rightarrow> bool" where
  "plansEnabled TogglePlanForm s = True"
| "plansEnabled ToggleAssignForm s = True"
| "plansEnabled (PlanInputChange fld v) s = showPlanForm s"
| "plansEnabled PlanFormSubmit s = (showPlanForm s \<and> \<not> loading s)"
| "plansEnabled CancelEdit s = (showPlanForm s \<and> editingPlan s \<noteq> None)"
| "plansEnabled (AssignInputChange fld v) s = showAssignForm s"
| "plansEnabled AssignFormSubmit s = (showAssignForm s \<and> \<not> loading s)"
| "plansEnabled (EditPlanClick plan) s = (plan \<in> set (plans s))"
| "plansEnabled (DeletePlanClick pid answer) s = (pid \<in> planId ` set (plans s))"

fun plansHandle :: "'n jsenv \<Rightarrow> string \<Rightarrow> 'n plansUI \<Rightarrow> 'n plansConfig \<Rightarrow> 'n plansConfig" where
  "plansHandle js today TogglePlanForm c = togglePlanFormClick c"
| "plansHandle js today ToggleAssignForm c = toggleAssignFormClick today c"
| "plansHandle js today (PlanInputChange fld v) c = handlePlanInputChange fld v c"
| "plansHandle js today PlanFormSubmit c = handlePlanFormSubmit js c"
| "plansHandle js today CancelEdit c = cancelEditClick c"
| "plansHandle js today (AssignInputChange fld v) c = handleAssignInputChange fld v c"
| "plansHandle js today AssignFormSubmit c = handleAssignFormSubmit js c"
| "plansHandle js today (EditPlanClick plan) c = handleEditPlanClick js plan c"
| "plansHandle js today (DeletePlanClick pid answer) c = handleDeletePlanClick pid answer c"

fun plansAccepts :: "'n plansTask \<Rightarrow> 'n response \<Rightarrow> bool" where
  "plansAccepts k (Inl err) = True"
| "plansAccepts FetchPlansK (Inr p) = (case p of PlansData ps \<Rightarrow> True | _ \<Rightarrow> False)"
| "plansAccepts FetchUsersK (Inr p) = (case p of UsersData us \<Rightarrow> True | _ \<Rightarrow> False)"
| "plansAccepts AllUsersK (Inr p) = (case p of UsersData us \<Rightarrow> True | _ \<Rightarrow> False)"
| "plansAccepts (AllLoopK assignments rest) (Inr p) =
     (case p of AssignmentsData userAssignments \<Rightarrow> True | _ \<Rightarrow> False)"
| "plansAccepts PlanSubmitK (Inr p) = True"
| "plansAccepts DeletePlanK (Inr p) = True"
| "plansAccepts AssignSubmitK (Inr p) = True"

fun plansResume ::
  "string \<Rightarrow> 'n plansTask \<Rightarrow> nat \<Rightarrow> 'n response \<Rightarrow> 'n plansConfig \<Rightarrow> 'n plansConfig" where
  "plansResume today FetchPlansK tid r c = fetchPlans_resume r c"
| "plansResume today FetchUsersK tid r c = fetchUsersForAssignment_resume r c"
| "plansResume today AllUsersK tid r c = fetchAllPlanAssignments_users tid r c"
| "plansResume today (AllLoopK assignments rest) tid r c =
     fetchAllPlanAssignments_next tid assignments rest r c"
| "plansResume today PlanSubmitK tid r c = handlePlanFormSubmit_resume r c"
| "plansResume today DeletePlanK tid r c = handleDeletePlanClick_resume r c"
| "plansResume today AssignSubmitK tid r c = handleAssignFormSubmit_resume today r c"

text \<open>An event comes with the date of the day it happens on.\<close>

fun plansStep ::
  "'n jsenv \<Rightarrow> string \<times> ('n plansUI, 'n response) event \<Rightarrow> 'n plansConfig \<Rightarrow> 'n plansConfig" where
  "plansStep js (today, UI u) c = (if plansEnabled u (st c) then plansHandle js today u c else c)"
| "plansStep js (today, Settled tid r) c =
     (case waiting c tid of
        None \<Rightarrow> c
      | Some k \<Rightarrow> if plansAccepts k r then plansResume today k tid r (settle tid c) else c)"

definition plansRun ::
  "'n jsenv \<Rightarrow> (string \<times> ('n plansUI, 'n response) event) list \<Rightarrow> 'n plansConfig \<Rightarrow> 'n plansConfig" where
  "plansRun js evs c = foldl (\<lambda>c ev. plansStep js ev c) c evs"

text \<open>The page after its first render and the run of its effect (three calls, none awaited).\<close>

definition plansMounted :: "string \<Rightarrow> 'n plansConfig" where
  "plansMounted today =
     (let c = \<lparr>st = plansInitialState today, pending = [], nextId = 0, sent = []\<rparr>;
          c = fetchPlans c;
          c = fetchUsersForAssignment c
      in fetchAllPlanAssignments c)"

text \<open>The submit button of the plan form is \<^verbatim>\<open>disabled={loading}\<close>.\<close>

definition planSubmitDisabled :: "'n plansState \<Rightarrow> bool" where
  "planSubmitDisabled s = loading s"

section \<open>UsersPage.tsx\<close>

record userForm =
  uf_name :: string
  uf_age :: string
  uf_gender :: string
  uf_contactNumber :: string
  uf_membershipStatus :: string
  uf_joiningDate :: string

record 'n usersState =
  us_users :: "'n User list"
  us_loading :: bool
  us_error :: "string option"
  showForm :: bool
  editingUser :: "'n User option"
  formData :: userForm

datatype usersTask = UFetchUsersK | UFormSubmitK | UDeleteK

datatype userField = UName | UAge | UGender | UContactNumber | UMembershipStatus | UJoiningDate

datatype 'n usersUI =
    UToggleForm
  | UInputChange userField string
  | UFormSubmit
  | UCancelEdit
  | UEditClick "'n User"
  | UDeleteClick string bool

type_synonym 'n usersConfig = "('n usersState, usersTask, 'n request) config"

definition defaultUserForm :: "string \<Rightarrow> userForm" where
  "defaultUserForm today = \<lparr>uf_name = [], uf_age = [], uf_gender = [], uf_contactNumber = [],
     uf_membershipStatus = ''Inactive'', uf_joiningDate = today\<rparr>"

definition usersInitialState :: "string \<Rightarrow> 'n usersState" where
  "usersInitialState today = \<lparr>us_users = [], us_loading = True, us_error = None,
     showForm = False, editingUser = None, formData = defaultUserForm today\<rparr>"

definition fetchUsers :: "'n usersConfig \<Rightarrow> 'n usersConfig" where
  "fetchUsers c =
     (let c = setState (\<lambda>s. s\<lparr>us_loading := True\<rparr>) c
      in spawn UFetchUsersK GET_users c)"

definition fetchUsers_resume :: "'n response \<Rightarrow> 'n usersConfig \<Rightarrow> 'n usersConfig" where
  "fetchUsers_resume r c =
     (let c = (case r of
                 Inr (UsersData us) \<Rightarrow>
                   (let c = setState (\<lambda>s. s\<lparr>us_users := us\<rparr>) c
                    in setState (\<lambda>s. s\<lparr>us_error := None\<rparr>) c)
               | Inr _ \<Rightarrow> c
               | Inl err \<Rightarrow>
                   setState (\<lambda>s. s\<lparr>us_error := Some
                     ''Failed to load users. Please ensure the backend is running and you are logged in.''\<rparr>) c)
      in setState (\<lambda>s. s\<lparr>us_loading := False\<rparr>) c)"

fun setUserField :: "userField \<Rightarrow> string \<Rightarrow> userForm \<Rightarrow> userForm" where
  "setUserField UName v f = f\<lparr>uf_name := v\<rparr>"
| "setUserField UAge v f = f\<lparr>uf_age := v\<rparr>"
| "setUserField UGender v f = f\<lparr>uf_gender := v\<rparr>"
| "setUserField UContactNumber v f = f\<lparr>uf_contactNumber := v\<rparr>"
| "setUserField UMembershipStatus v f = f\<lparr>uf_membershipStatus := v\<rparr>"
| "setUserField UJoiningDate v f = f\<lparr>uf_joiningDate := v\<rparr>"

definition handleInputChange :: "userField \<Rightarrow> string \<Rightarrow> 'n usersConfig \<Rightarrow> 'n usersConfig" where
  "handleInputChange fld v c = setState (\<lambda>s. s\<lparr>formData := setUserField fld v (formData s)\<rparr>) c"

definition handleFormSubmit :: "'n jsenv \<Rightarrow> 'n usersConfig \<Rightarrow> 'n usersConfig" where
  "handleFormSubmit js c =
     (let c = setState (\<lambda>s. s\<lparr>us_error := None\<rparr>) c;
          c = setState (\<lambda>s. s\<lparr>us_loading := True\<rparr>) c;
          fd = formData (st c);
          userPayload = \<lparr>up_name = uf_name fd,
                         up_age = parseInt js (uf_age fd),
                         up_gender = uf_gender fd,
                         up_contactNumber = uf_contactNumber fd,
                         up_membershipStatus = uf_membershipStatus fd,
                         up_joiningDate = uf_joiningDate fd\<rparr>
      in case editingUser (st c) of
           Some u \<Rightarrow> spawn UFormSubmitK (PUT_users (userId u) userPayload) c
         | None \<Rightarrow> spawn UFormSubmitK (POST_users userPayload) c)"

definition handleFormSubmit_resume ::
  "string \<Rightarrow> 'n response \<Rightarrow> 'n usersConfig \<Rightarrow> 'n usersConfig" where
  "handleFormSubmit_resume today r c =
     (let c = (case r of
                 Inr _ \<Rightarrow>
                   (let c = setState (\<lambda>s. s\<lparr>showForm := False\<rparr>) c;
                        c = setState (\<lambda>s. s\<lparr>editingUser := None\<rparr>) c;
                        c = setState (\<lambda>s. s\<lparr>formData := defaultUserForm today\<rparr>) c
                    in fetchUsers c)
               | Inl err \<Rightarrow>
                   setState (\<lambda>s. s\<lparr>us_error := Some ''Failed to save user. Please check your input.''\<rparr>) c)
      in setState (\<lambda>s. s\<lparr>us_loading := False\<rparr>) c)"

definition handleEditClick :: "'n jsenv \<Rightarrow> 'n User \<Rightarrow> 'n usersConfig \<Rightarrow> 'n usersConfig" where
  "handleEditClick js user c =
     (let c = setState (\<lambda>s. s\<lparr>editingUser := Some user\<rparr>) c;
          c = setState (\<lambda>s. s\<lparr>formData :=
                \<lparr>uf_name = name user,
                 uf_age = numToString js (age user),
                 uf_gender = gender user,
                 uf_contactNumber = contactNumber user,
                 uf_membershipStatus = membershipStatus user,
                 uf_joiningDate = joiningDate user\<rparr>\<rparr>) c
      in setState (\<lambda>s. s\<lparr>showForm := True\<rparr>) c)"

definition handleDeleteClick :: "string \<Rightarrow> bool \<Rightarrow> 'n usersConfig \<Rightarrow> 'n usersConfig" where
  "handleDeleteClick uid confirmed c =
     (if confirmed then
        (let c = setState (\<lambda>s. s\<lparr>us_loading := True\<rparr>) c
         in spawn UDeleteK (DELETE_users uid) c)
      else c)"

definition handleDeleteClick_resume :: "'n response \<Rightarrow> 'n usersConfig \<Rightarrow> 'n usersConfig" where
  "handleDeleteClick_resume r c =
     (let c = (case r of
                 Inr _ \<Rightarrow> fetchUsers c
               | Inl err \<Rightarrow> setState (\<lambda>s. s\<lparr>us_error := Some ''Failed to delete user.''\<rparr>) c)
      in setState (\<lambda>s. s\<lparr>us_loading := False\<rparr>) c)"

definition toggleFormClick :: "string \<Rightarrow> 'n usersConfig \<Rightarrow> 'n usersConfig" where
  "toggleFormClick today c =
     (let shownBefore = showForm (st c);
          c = setState (\<lambda>s. s\<lparr>showForm := \<not> shownBefore\<rparr>) c;
          c = setState (\<lambda>s. s\<lparr>editingUser := None\<rparr>) c
      in setState (\<lambda>s. s\<lparr>formData := defaultUserForm today\<rparr>) c)"

definition cancelUserEditClick :: "string \<Rightarrow> 'n usersConfig \<Rightarrow> 'n usersConfig" where
  "cancelUserEditClick today c =
     (let c = setState (\<lambda>s. s\<lparr>editingUser := None\<rparr>) c;
          c = setState (\<lambda>s. s\<lparr>showForm := False\<rparr>) c
      in setState (\<lambda>s. s\<lparr>formData := defaultUserForm today\<rparr>) c)"

fun usersEnabled :: "'n usersUI \<Rightarrow> 'n usersState \<Rightarrow> bool" where
  "usersEnabled UToggleForm s = True"
| "usersEnabled (UInputChange fld v) s = showForm s"
| "usersEnabled UFormSubmit s = (showForm s \<and> \<not> us_loading s)"
| "usersEnabled UCancelEdit s = (showForm s \<and> editingUser s \<noteq> None)"
| "usersEnabled (UEditClick user) s = (user \<in> set (us_users s))"
| "usersEnabled (UDeleteClick uid answer) s = (uid \<in> userId ` set (us_users s))"

fun usersHandle :: "'n jsenv \<Rightarrow> string \<Rightarrow> 'n usersUI \<Rightarrow> 'n usersConfig \<Rightarrow> 'n usersConfig" where
  "usersHandle js today UToggleForm c = toggleFormClick today c"
| "usersHandle js today (UInputChange fld v) c = handleInputChange fld v c"
| "usersHandle js today UFormSubmit c = handleFormSubmit js c"
| "usersHandle js today UCancelEdit c = cancelUserEditClick today c"
| "usersHandle js today (UEditClick user) c = handleEditClick js user c"
| "usersHandle js today (UDeleteClick uid answer) c = handleDeleteClick uid answer c"

fun usersAccepts :: "usersTask \<Rightarrow> 'n response \<Rightarrow> bool" where
  "usersAccepts k (Inl err) = True"
| "usersAccepts UFetchUsersK (Inr p) = (case p of UsersData us \<Rightarrow> True | _ \<Rightarrow> False)"
| "usersAccepts UFormSubmitK (Inr p) = True"
| "usersAccepts UDeleteK (Inr p) = True"

fun usersResume :: "string \<Rightarrow> usersTask \<Rightarrow> 'n response \<Rightarrow> 'n usersConfig \<Rightarrow> 'n usersConfig" where
  "usersResume today UFetchUsersK r c = fetchUsers_resume r c"
| "usersResume today UFormSubmitK r c = handleFormSubmit_resume today r c"
| "usersResume today UDeleteK r c = handleDeleteClick_resume r c"

fun usersStep ::
  "'n jsenv \<Rightarrow> string \<times> ('n usersUI, 'n response) event \<Rightarrow> 'n usersConfig \<Rightarrow> 'n usersConfig" where
  "usersStep js (today, UI u) c = (if usersEnabled u (st c) then usersHandle js today u c else c)"
| "usersStep js (today, Settled tid r) c =
     (case waiting c tid of
        None \<Rightarrow> c
      | Some k \<Rightarrow> if usersAccepts k r then usersResume today k r (settle tid c) else c)"

definition usersRun ::
  "'n jsenv \<Rightarrow> (string \<times> ('n usersUI, 'n response) event) list \<Rightarrow> 'n usersConfig \<Rightarrow> 'n usersConfig" where
  "usersRun js evs c = foldl (\<lambda>c ev. usersStep js ev c) c evs"

definition usersMounted :: "string \<Rightarrow> 'n usersConfig" where
  "usersMounted today =
     fetchUsers \<lparr>st = usersInitialState today, pending = [], nextId = 0, sent = []\<rparr>"

section \<open>Properties\<close>

subsection \<open>Auxiliary definitions\<close>

text \<open>Outstanding calls have distinct identifiers, all below the next one to be given out.\<close>

definition fresh :: "('s, 'k, 'q) config \<Rightarrow> bool" where
  "fresh c = (distinct (map fst (pending c)) \<and> (\<forall>p \<in> set (pending c). fst p < nextId c))"

text \<open>The per-member calls of one aggregation resolving one after the other with \<open>rs\<close>.\<close>

definition assignmentResults :: "nat \<Rightarrow> 'n PlanAssignmentDisplay list list \<Rightarrow> ('n plansUI, 'n response) event list" where
  "assignmentResults tid rs = map (\<lambda>r. Settled tid (Inr (AssignmentsData r))) rs"

text \<open>
  A runtime to evaluate examples with. A number is its decimal text, so that parsing and
  printing do nothing. A date is a text of the shape \<^verbatim>\<open>2025-01-01T10:00:00\<close>, a local time
  whose month, day, hour, minute and second are in range; it formats, under the three
  patterns the pages use, to its date, to its time, or to both; any other text is an
  invalid date, on which \<^verbatim>\<open>format\<close> throws.
\<close>

definition isDigit :: "char \<Rightarrow> bool" where
  "isDigit ch = (ch \<in> set ''0123456789'')"

definition digitsAt :: "nat \<Rightarrow> nat \<Rightarrow> string \<Rightarrow> nat" where
  "digitsAt i n stamp = foldl (\<lambda>a ch. 10 * a + (of_char ch - 48)) 0 (take n (drop i stamp))"

definition daysInMonth :: "nat \<Rightarrow> nat \<Rightarrow> nat" where
  "daysInMonth y m =
     (if m = 2 then (if y mod 4 = 0 \<and> (y mod 100 \<noteq> 0 \<or> y mod 400 = 0) then 29 else 28)
      else if m \<in> {4, 6, 9, 11} then 30 else 31)"

definition isLocalDateTime :: "string \<Rightarrow> bool" where
  "isLocalDateTime stamp =
     (list_all2 (\<lambda>m ch. if m = CHR ''d'' then isDigit ch else ch = m) ''dddd-dd-ddTdd:dd:dd'' stamp \<and>
      1 \<le> digitsAt 5 2 stamp \<and> digitsAt 5 2 stamp \<le> 12 \<and>
      1 \<le> digitsAt 8 2 stamp \<and> digitsAt 8 2 stamp \<le> daysInMonth (digitsAt 0 4 stamp) (digitsAt 5 2 stamp) \<and>
      digitsAt 11 2 stamp < 24 \<and> digitsAt 14 2 stamp < 60 \<and> digitsAt 17 2 stamp < 60)"

definition formatExample :: "string \<Rightarrow> string \<Rightarrow> string option" where
  "formatExample stamp pattern =
     (if isLocalDateTime stamp then
        (if pattern = ''HH:mm:ss'' then Some (drop 11 stamp)
         else if pattern = ''yyyy-MM-dd'' then Some (take 10 stamp)
         else if pattern = ''yyyy-MM-dd HH:mm:ss'' then Some (take 10 stamp @ '' '' @ drop 11 stamp)
         else None)
      else None)"

definition jsExample :: "string jsenv" where
  "jsExample = \<lparr>parseInt = (\<lambda>s. s), parseFloat = (\<lambda>s. s), numToString = (\<lambda>n. n),
     format = formatExample\<rparr>"

text \<open>The check-in calls that are outstanding, and the \<^verbatim>\<open>disabled\<close> attribute of the check-in button.\<close>

fun isCheckIn :: "attTask \<Rightarrow> bool" where
  "isCheckIn (CheckInK um) = True"
| "isCheckIn UsersMapK = False"
| "isCheckIn LogsK = False"

definition checkInsInFlight :: "'n attConfig \<Rightarrow> nat" where
  "checkInsInFlight c = length (filter (\<lambda>p. isCheckIn (snd p)) (pending c))"

definition checkInSubmitDisabled :: "'n attState \<Rightarrow> bool" where
  "checkInSubmitDisabled s = loadingCheckIn s"

text \<open>The \<^verbatim>\<open>message\<close> field of the body of an error response, when there is one.\<close>

definition payloadMessage :: "'n axiosError \<Rightarrow> string option" where
  "payloadMessage err =
     (case response err of
        None \<Rightarrow> None
      | Some rp \<Rightarrow> (case data rp of None \<Rightarrow> None | Some d \<Rightarrow> message d))"

text \<open>The plan submissions that are outstanding.\<close>

definition planSubmitsInFlight :: "'n plansConfig \<Rightarrow> nat" where
  "planSubmitsInFlight c = length (filter (\<lambda>p. snd p = PlanSubmitK) (pending c))"

text \<open>On the attendance page the flag \<^verbatim>\<open>loadingCheckIn\<close> counts the outstanding check-ins.\<close>

definition attInv :: "'n attConfig \<Rightarrow> bool" where
  "attInv c = (fresh c \<and> checkInsInFlight c = (if loadingCheckIn (st c) then 1 else 0))"

text \<open>
  \<open>settles tid ev\<close>: the event settles a call of the async function \<open>tid\<close>.
  \<open>keepsAssignments ev\<close>: the event is a user action, or settles a call with something
  other than a list of assignments or an empty list of members, the two responses that
  let an aggregation write \<^verbatim>\<open>planAssignments\<close>.
\<close>

definition settles :: "nat \<Rightarrow> string \<times> ('u, 'r) event \<Rightarrow> bool" where
  "settles tid ev = (case snd ev of Settled t r \<Rightarrow> t = tid | UI u \<Rightarrow> False)"

definition keepsAssignments :: "string \<times> ('u, 'n response) event \<Rightarrow> bool" where
  "keepsAssignments ev =
     (case snd ev of
        UI u \<Rightarrow> True
      | Settled t r \<Rightarrow>
          (case r of
             Inr (AssignmentsData userAssignments) \<Rightarrow> False
           | Inr (UsersData us) \<Rightarrow> us \<noteq> []
           | _ \<Rightarrow> True))"

text \<open>Example data.\<close>

definition memberExample :: "string \<Rightarrow> string User" where
  "memberExample uid = \<lparr>userId = uid, name = ''Ann'', age = ''30'', gender = ''Other'',
     contactNumber = ''555'', membershipStatus = ''Active'', joiningDate = ''2024-01-01''\<rparr>"

definition assignmentExample :: "string \<Rightarrow> string PlanAssignmentDisplay" where
  "assignmentExample i = \<lparr>assignmentId = i, pa_userName = ''Ann'', pa_planName = ''Gold'',
     startDate = ''2024-01-01'', endDate = ''2024-07-01'', pa_userId = None, pa_planId = None\<rparr>"

text \<open>
  The attendance page with both start-up calls resolved and a check-in call outstanding;
  the second member of the table has an empty name.
\<close>

definition checkInPending :: "string attConfig" where
  "checkInPending = attRun jsExample
     [Settled 0 (Inr (UsersData [memberExample ''u-1'', (memberExample ''u-123456789'')\<lparr>name := []\<rparr>])),
      Settled 0 (Inr (AttendanceData [])),
      UI (ChangeInput ''  u-1 ''),
      UI SubmitForm] attMounted"

text \<open>An error response whose body has the given \<^verbatim>\<open>message\<close> field.\<close>

definition badRequest :: "string option \<Rightarrow> string axiosError" where
  "badRequest msg = AxiosError (Some \<lparr>status = ''400'', statusText = ''Bad Request'',
     data = Some (ErrData msg)\<rparr>)"

definition planExample :: "string MembershipPlan" where
  "planExample = \<lparr>planId = ''7'', planName = ''Gold'', price = ''49.99'', durationMonths = ''6'',
     featuresList = ''sauna, pool''\<rparr>"

text \<open>
  The plans page with its three start-up calls resolved and the plan form open; and the
  page with a plan submission outstanding when the start-up aggregation resolves.
\<close>

definition plansReady :: "string plansConfig" where
  "plansReady = plansRun jsExample
     [(''2025-01-01'', Settled 0 (Inr (PlansData [planExample]))),
      (''2025-01-01'', Settled 1 (Inr (UsersData [memberExample ''m1'']))),
      (''2025-01-01'', Settled 2 (Inr (UsersData []))),
      (''2025-01-01'', UI TogglePlanForm),
      (''2025-01-01'', UI (PlanInputChange PlanName ''Silver'')),
      (''2025-01-01'', UI (PlanInputChange Price ''29.5'')),
      (''2025-01-01'', UI (PlanInputChange DurationMonths ''3''))] (plansMounted ''2025-01-01'')"

definition plansRace :: "string plansConfig" where
  "plansRace = plansRun jsExample
     [(''2025-01-01'', Settled 0 (Inr (PlansData []))),
      (''2025-01-01'', UI TogglePlanForm),
      (''2025-01-01'', UI (PlanInputChange PlanName ''Silver'')),
      (''2025-01-01'', UI (PlanInputChange Price ''29.5'')),
      (''2025-01-01'', UI (PlanInputChange DurationMonths ''3'')),
      (''2025-01-01'', UI PlanFormSubmit),
      (''2025-01-01'', Settled 2 (Inr (UsersData [])))] (plansMounted ''2025-01-01'')"

text \<open>
  The plans page with one plan listed and the assign form open; with a confirmed delete
  outstanding; and the members page with a create submission outstanding.
\<close>

definition assignFormOpen :: "string plansConfig" where
  "assignFormOpen = plansRun jsExample
     [(''2025-01-01'', Settled 0 (Inr (PlansData [planExample]))),
      (''2025-01-01'', UI ToggleAssignForm)] (plansMounted ''2025-01-01'')"

definition deletePending :: "string plansConfig" where
  "deletePending = plansRun jsExample
     [(''2025-01-01'', Settled 0 (Inr (PlansData [planExample]))),
      (''2025-01-01'', Settled 1 (Inr (UsersData [memberExample ''m1'']))),
      (''2025-01-01'', Settled 2 (Inr (UsersData []))),
      (''2025-01-01'', UI (DeletePlanClick ''7'' True))] (plansMounted ''2025-01-01'')"

definition memberSubmitPending :: "string usersConfig" where
  "memberSubmitPending = usersRun jsExample
     [(''2025-01-01'', Settled 0 (Inr (UsersData [memberExample ''m1'']))),
      (''2025-01-01'', UI UToggleForm),
      (''2025-01-01'', UI (UInputChange UName ''Bob'')),
      (''2025-01-01'', UI (UInputChange UAge ''41'')),
      (''2025-01-01'', UI (UInputChange UGender ''Male'')),
      (''2025-01-01'', UI (UInputChange UContactNumber ''5551234'')),
      (''2025-01-01'', UI (UInputChange UMembershipStatus ''Active'')),
      (''2025-01-01'', UI (UInputChange UJoiningDate ''2024-12-24'')),
      (''2025-01-01'', UI UFormSubmit)] (usersMounted ''2025-01-01'')"

text \<open>
  The plans page after its start-up aggregation has stored one assignment and a confirmed
  delete has resolved: a second aggregation is waiting for the member list.
\<close>

definition aggregationRerun :: "string plansConfig" where
  "aggregationRerun = plansRun jsExample
     [(''2025-01-01'', Settled 2 (Inr (UsersData [memberExample ''m1'']))),
      (''2025-01-01'', Settled 2 (Inr (AssignmentsData [assignmentExample ''11'']))),
      (''2025-01-01'', Settled 0 (Inr (PlansData [planExample]))),
      (''2025-01-01'', Settled 1 (Inr (UsersData [memberExample ''m1'']))),
      (''2025-01-01'', UI (DeletePlanClick ''7'' True)),
      (''2025-01-01'', Settled 3 (Inr OtherData))] (plansMounted ''2025-01-01'')"

text \<open>
  The attendance page where the check-in was submitted before the member list arrived:
  both start-up calls have resolved since, and the check-in call is outstanding.
\<close>

definition checkInEarly :: "string attConfig" where
  "checkInEarly = attRun jsExample
     [UI (ChangeInput ''u-1''),
      UI SubmitForm,
      Settled 0 (Inr (UsersData [memberExample ''u-1''])),
      Settled 0 (Inr (AttendanceData []))] attMounted"

text \<open>
  The plans page with a confirmed delete resolved while the start-up aggregation is still
  waiting for the member list: two aggregations are under way.
\<close>

definition twoAggregations :: "string plansConfig" where
  "twoAggregations = plansRun jsExample
     [(''2025-01-01'', Settled 0 (Inr (PlansData [planExample]))),
      (''2025-01-01'', UI (DeletePlanClick ''7'' True)),
      (''2025-01-01'', Settled 3 (Inr OtherData))] (plansMounted ''2025-01-01'')"

subsection \<open>Configurations\<close>

lemma setState_sel [simp]:
  "st (setState f c) = f (st c)" "pending (setState f c) = pending c"
  "nextId (setState f c) = nextId c" "sent (setState f c) = sent c"
  by (simp_all add: setState_def)

lemma spawn_sel [simp]:
  "st (spawn k q c) = st c" "pending (spawn k q c) = pending c @ [(nextId c, k)]"
  "nextId (spawn k q c) = Suc (nextId c)" "sent (spawn k q c) = sent c @ [q]"
  by (simp_all add: spawn_def)

lemma await_sel [simp]:
  "st (await tid k q c) = st c" "pending (await tid k q c) = pending c @ [(tid, k)]"
  "nextId (await tid k q c) = nextId c" "sent (await tid k q c) = sent c @ [q]"
  by (simp_all add: await_def)

lemma settle_sel [simp]:
  "st (settle tid c) = st c" "pending (settle tid c) = filter (\<lambda>p. fst p \<noteq> tid) (pending c)"
  "nextId (settle tid c) = nextId c" "sent (settle tid c) = sent c"
  by (simp_all add: settle_def)

lemma waiting_setState [simp]: "waiting (setState f c) tid = waiting c tid"
  by (simp add: waiting_def)

lemma waiting_settle_same [simp]: "waiting (settle tid c) tid = None"
  by (simp add: waiting_def map_of_eq_None_iff image_iff)

lemma waiting_await_same: "waiting c tid = None \<Longrightarrow> waiting (await tid k q c) tid = Some k"
  by (simp add: waiting_def map_add_def)

lemma waiting_mem: "waiting c tid = Some k \<Longrightarrow> (tid, k) \<in> set (pending c)"
  by (simp add: waiting_def map_of_SomeD)

lemma fresh_waiting_None: "fresh c \<Longrightarrow> waiting c (nextId c) = None"
  by (fastforce simp: fresh_def waiting_def map_of_eq_None_iff)

lemma waiting_spawn_new: "fresh c \<Longrightarrow> waiting (spawn k q c) (nextId c) = Some k"
  using fresh_waiting_None[of c] by (simp add: waiting_def map_add_def)

lemma fresh_setState [simp]: "fresh (setState f c) = fresh c"
  by (simp add: fresh_def)

lemma fresh_spawn [simp]: "fresh c \<Longrightarrow> fresh (spawn k q c)"
  by (fastforce simp: fresh_def)

lemma fresh_settle [simp]: "fresh c \<Longrightarrow> fresh (settle tid c)"
  by (auto simp: fresh_def distinct_map_filter)

lemma fresh_await_settle: "fresh c \<Longrightarrow> tid < nextId c \<Longrightarrow> fresh (await tid k q (settle tid c))"
  by (auto simp: fresh_def distinct_map_filter)

lemma fresh_waiting_less: "fresh c \<Longrightarrow> waiting c tid = Some k \<Longrightarrow> tid < nextId c"
  using waiting_mem[of c tid k] by (fastforce simp: fresh_def)

subsection \<open>Identifiers of outstanding calls on the plans page\<close>

lemma plansRun_Nil: "plansRun js [] c = c" by (simp add: plansRun_def)
lemma plansRun_Cons: "plansRun js (e # es) c = plansRun js es (plansStep js e c)" by (simp add: plansRun_def)
lemma plansRun_append: "plansRun js (es @ fs) c = plansRun js fs (plansRun js es c)" by (simp add: plansRun_def)

text \<open>
  The loop of \<^verbatim>\<open>fetchAllPlanAssignments\<close> after some of its calls have resolved: the array
  holds their results in order, and nothing of the state has been written.
\<close>

lemma loop_progress:
  "waiting c tid = Some (AllLoopK acc rest) \<Longrightarrow> map snd evs = assignmentResults tid rs \<Longrightarrow>
   length rs \<le> length rest \<Longrightarrow>
   waiting (plansRun js evs c) tid = Some (AllLoopK (acc @ concat rs) (drop (length rs) rest)) \<and>
   st (plansRun js evs c) = st c \<and>
   sent (plansRun js evs c) = sent c @ map (\<lambda>u. GET_plans_user_assignments (userId u)) (take (length rs) rest)"
proof (induction rs arbitrary: c acc rest evs)
  case Nil
  then show ?case by (simp add: assignmentResults_def plansRun_Nil)
next
  case (Cons r rs)
  from Cons.prems(3) obtain u rest' where rest: "rest = u # rest'" "length rs \<le> length rest'"
    by (cases rest) auto
  from Cons.prems(2) obtain d evs' where evs: "evs = (d, Settled tid (Inr (AssignmentsData r))) # evs'"
     "map snd evs' = assignmentResults tid rs"
    by (cases evs) (auto simp: assignmentResults_def)
  let ?c' = "await tid (AllLoopK (acc @ r) rest') (GET_plans_user_assignments (userId u)) (settle tid c)"
  have step: "plansStep js (d, Settled tid (Inr (AssignmentsData r))) c = ?c'"
    using Cons.prems(1) by (simp add: rest fetchAllPlanAssignments_next_def fetchAllPlanAssignments_loop_def)
  have w: "waiting ?c' tid = Some (AllLoopK (acc @ r) rest')" by (simp add: waiting_await_same)
  show ?case
    unfolding evs(1) plansRun_Cons step
    using Cons.IH[OF w evs(2) rest(2)]
    by (simp add: rest(1))
qed

lemma fresh_plansStep: "fresh c \<Longrightarrow> fresh (plansStep js ev c)"
proof (cases ev)
  case (Pair today e)
  assume f: "fresh c"
  show ?thesis
  proof (cases e)
    case (UI u)
    then show ?thesis using f Pair
      by (cases u) (simp_all add: togglePlanFormClick_def toggleAssignFormClick_def handlePlanInputChange_def
          handlePlanFormSubmit_def cancelEditClick_def handleAssignInputChange_def handleAssignFormSubmit_def
          handleEditPlanClick_def handleDeletePlanClick_def Let_def split: option.splits)
  next
    case (Settled tid r)
    show ?thesis
    proof (cases "waiting c tid")
      case None
      then show ?thesis using f Pair Settled by simp
    next
      case (Some k)
      note lt = fresh_waiting_less[OF f Some]
      have aw: "\<And>k' q. fresh (await tid k' q (settle tid c))" using f lt by (rule fresh_await_settle)
      show ?thesis using f Pair Settled Some aw
        by (cases k) (auto simp: fetchPlans_resume_def fetchUsersForAssignment_resume_def
          fetchAllPlanAssignments_users_def fetchAllPlanAssignments_next_def fetchAllPlanAssignments_loop_def
          fetchAllPlanAssignments_failed_def handlePlanFormSubmit_resume_def handleDeletePlanClick_resume_def
          handleAssignFormSubmit_resume_def fetchPlans_def fetchAllPlanAssignments_def fetchUsersForAssignment_def
          Let_def split: sum.splits payload.splits list.splits)
    qed
  qed
qed

lemma fresh_plansRun: "fresh c \<Longrightarrow> fresh (plansRun js evs c)"
  by (induction evs arbitrary: c) (simp_all add: fresh_plansStep plansRun_Nil plansRun_Cons)

lemma fresh_plansMounted: "fresh (plansMounted today)"
  by (simp add: plansMounted_def fetchPlans_def fetchUsersForAssignment_def fetchAllPlanAssignments_def Let_def)
     (simp add: fresh_def)

subsection \<open>The assignment aggregation\<close>

lemma assignmentResults_simps [simp]:
  "assignmentResults tid [] = []"
  "assignmentResults tid (r # rs) = Settled tid (Inr (AssignmentsData r)) # assignmentResults tid rs"
  "assignmentResults tid (rs @ rs') = assignmentResults tid rs @ assignmentResults tid rs'"
  by (simp_all add: assignmentResults_def)

lemma loop_finish:
  assumes w: "waiting c tid = Some (AllLoopK acc rest)"
      and evs: "map snd evs = assignmentResults tid rs"
      and len: "length rs = Suc (length rest)"
  shows "st (plansRun js evs c) = (st c)\<lparr>planAssignments := acc @ concat rs, loading := False\<rparr> \<and>
         sent (plansRun js evs c) = sent c @ map (\<lambda>u. GET_plans_user_assignments (userId u)) rest \<and>
         waiting (plansRun js evs c) tid = None"
proof -
  from len obtain rs' r where rs: "rs = rs' @ [r]" "length rs' = length rest"
    by (cases rs rule: rev_cases) auto
  from evs obtain evs' d where e: "evs = evs' @ [(d, Settled tid (Inr (AssignmentsData r)))]"
      "map snd evs' = assignmentResults tid rs'"
    unfolding rs(1) assignmentResults_simps(3) map_eq_append_conv by (auto simp: assignmentResults_def)
  have p: "waiting (plansRun js evs' c) tid = Some (AllLoopK (acc @ concat rs') [])"
     "st (plansRun js evs' c) = st c"
     "sent (plansRun js evs' c) = sent c @ map (\<lambda>u. GET_plans_user_assignments (userId u)) rest"
    using loop_progress[OF w e(2), of js] rs(2) by simp_all
  show ?thesis
    unfolding e(1) plansRun_append
    by (simp add: p rs(1) plansRun_Nil plansRun_Cons fetchAllPlanAssignments_next_def
        fetchAllPlanAssignments_loop_def)
qed

text \<open>
  What the other events of the page do to an aggregation that is under way: nothing. They
  settle other calls or start new ones, under other identifiers.
\<close>

lemma waiting_spawn_other: "tid \<noteq> nextId c \<Longrightarrow> waiting (spawn k q c) tid = waiting c tid"
  by (simp add: waiting_def map_add_def split: option.splits)

lemma waiting_await_other: "tid \<noteq> t \<Longrightarrow> waiting (await t k q c) tid = waiting c tid"
  by (simp add: waiting_def map_add_def split: option.splits)

lemma map_of_filter_other: "tid \<noteq> t \<Longrightarrow> map_of (filter (\<lambda>p. fst p \<noteq> t) xs) tid = map_of xs tid"
  by (induction xs) auto

lemma waiting_settle_other: "tid \<noteq> t \<Longrightarrow> waiting (settle t c) tid = waiting c tid"
  by (simp add: waiting_def map_of_filter_other)

lemmas plans_handler_defs = togglePlanFormClick_def toggleAssignFormClick_def handlePlanInputChange_def
  handlePlanFormSubmit_def cancelEditClick_def handleAssignInputChange_def handleAssignFormSubmit_def
  handleEditPlanClick_def handleDeletePlanClick_def

lemmas plans_resume_defs = fetchPlans_resume_def fetchUsersForAssignment_resume_def
  fetchAllPlanAssignments_users_def fetchAllPlanAssignments_next_def fetchAllPlanAssignments_loop_def
  fetchAllPlanAssignments_failed_def handlePlanFormSubmit_resume_def handleDeletePlanClick_resume_def
  handleAssignFormSubmit_resume_def fetchPlans_def fetchAllPlanAssignments_def fetchUsersForAssignment_def

lemma other_step_waiting:
  assumes lt: "tid < nextId c" and o: "\<not> settles tid ev"
  shows "waiting (plansStep js ev c) tid = waiting c tid \<and> tid < nextId (plansStep js ev c)"
proof (cases ev)
  case (Pair today e)
  have sp: "\<And>k q c'. nextId c' = nextId c \<Longrightarrow> waiting (spawn k q c') tid = waiting c' tid"
    using lt by (simp add: waiting_spawn_other)
  show ?thesis
  proof (cases e)
    case (UI u)
    then show ?thesis using lt Pair
      by (cases u) (auto simp: plans_handler_defs waiting_spawn_other Let_def split: option.splits)
  next
    case (Settled t r)
    with o Pair have ne: "tid \<noteq> t" by (simp add: settles_def)
    show ?thesis
    proof (cases "waiting c t")
      case None
      then show ?thesis using lt Pair Settled by simp
    next
      case (Some k)
      then show ?thesis using lt ne Pair Settled
        by (cases k) (auto simp: plans_resume_defs waiting_spawn_other waiting_await_other
            waiting_settle_other Let_def split: sum.splits payload.splits list.splits)
    qed
  qed
qed

lemma keeps_step:
  assumes "keepsAssignments ev"
  shows "planAssignments (st (plansStep js ev c)) = planAssignments (st c)"
proof (cases ev)
  case (Pair today e)
  show ?thesis
  proof (cases e)
    case (UI u)
    then show ?thesis using Pair
      by (cases u) (auto simp: plans_handler_defs Let_def split: option.splits)
  next
    case (Settled t r)
    show ?thesis
    proof (cases "waiting c t")
      case None
      then show ?thesis using Pair Settled by simp
    next
      case (Some k)
      then show ?thesis using assms Pair Settled
        by (cases k) (auto simp: keepsAssignments_def plans_resume_defs Let_def
            split: sum.splits payload.splits list.splits)
    qed
  qed
qed

text \<open>Events that settle no call of the aggregation leave it where it is.\<close>
lemma gap_run:
  assumes "fresh c" "tid < nextId c" "\<forall>ev \<in> set g. \<not> settles tid ev"
  shows "waiting (plansRun js g c) tid = waiting c tid \<and> fresh (plansRun js g c) \<and>
         tid < nextId (plansRun js g c)"
  using assms
proof (induction g arbitrary: c)
  case Nil
  then show ?case by (simp add: plansRun_Nil)
next
  case (Cons ev g)
  from Cons.prems have o: "\<not> settles tid ev" by simp
  note s = other_step_waiting[OF Cons.prems(2) o, of js]
  have f: "fresh (plansStep js ev c)" using Cons.prems(1) by (rule fresh_plansStep)
  from Cons.IH[OF f] s Cons.prems(3) show ?case by (simp add: plansRun_Cons)
qed

text \<open>Splitting a run at the first event that settles a call of the aggregation.\<close>
lemma own_events_Cons:
  assumes "map snd (filter (settles tid) evs) = x # xs"
  obtains g d evs' where "evs = g @ (d, x) # evs'" "\<forall>ev \<in> set g. \<not> settles tid ev"
    "map snd (filter (settles tid) evs') = xs"
proof -
  from assms obtain e es where fe: "filter (settles tid) evs = e # es" "snd e = x" "map snd es = xs"
    by (auto simp: map_eq_Cons_conv)
  from fe(1) obtain g evs' where "evs = g @ e # evs'" "\<forall>u \<in> set g. \<not> settles tid u" "es = filter (settles tid) evs'"
    by (auto simp: filter_eq_Cons_iff)
  with fe(2,3) that[of g "fst e" evs'] show thesis by (cases e) auto
qed

lemma own_events_Nil_last:
  assumes "filter (settles tid) evs' = []" "settles tid (last (pre @ e # evs'))"
  shows "evs' = []"
proof (rule ccontr)
  assume ne: "evs' \<noteq> []"
  then have "last (pre @ e # evs') = last evs'" by simp
  with assms(2) have "settles tid (last evs')" by simp
  moreover have "last evs' \<in> set evs'" using ne by simp
  ultimately have "last evs' \<in> set (filter (settles tid) evs')" by simp
  with assms(1) show False by simp
qed

lemma loop_interleaved:
  assumes "fresh c" "tid < nextId c" "waiting c tid = Some (AllLoopK acc rest)"
      and "map snd (filter (settles tid) evs) = assignmentResults tid rs"
      and "length rs = Suc (length rest)"
      and "settles tid (last evs)"
  shows "planAssignments (st (plansRun js evs c)) = acc @ concat rs"
  using assms
proof (induction rest arbitrary: c acc rs evs)
  case Nil
  then obtain r where rs: "rs = [r]" by (cases rs) auto
  from Nil.prems(4) obtain g d evs' where e: "evs = g @ (d, Settled tid (Inr (AssignmentsData r))) # evs'"
      "\<forall>ev \<in> set g. \<not> settles tid ev" "map snd (filter (settles tid) evs') = []"
    unfolding rs assignmentResults_simps by (rule own_events_Cons)
  from e(3) Nil.prems(6) have "evs' = []" unfolding e(1) by (intro own_events_Nil_last[of tid evs']) auto
  moreover note gap_run[OF Nil.prems(1,2) e(2), of js]
  ultimately show ?case using Nil.prems(3)
    by (simp add: e(1) rs plansRun_append plansRun_Cons plansRun_Nil fetchAllPlanAssignments_next_def
        fetchAllPlanAssignments_loop_def)
next
  case (Cons u rest)
  then obtain r rs' where rs: "rs = r # rs'" "length rs' = Suc (length rest)" by (cases rs) auto
  from Cons.prems(4) obtain g d evs' where e: "evs = g @ (d, Settled tid (Inr (AssignmentsData r))) # evs'"
      "\<forall>ev \<in> set g. \<not> settles tid ev" "map snd (filter (settles tid) evs') = assignmentResults tid rs'"
    unfolding rs(1) assignmentResults_simps by (rule own_events_Cons)
  let ?c1 = "plansRun js g c"
  note g = gap_run[OF Cons.prems(1,2) e(2), of js]
  let ?c2 = "await tid (AllLoopK (acc @ r) rest) (GET_plans_user_assignments (userId u)) (settle tid ?c1)"
  have step: "plansStep js (d, Settled tid (Inr (AssignmentsData r))) ?c1 = ?c2"
    using g Cons.prems(3) by (simp add: fetchAllPlanAssignments_next_def fetchAllPlanAssignments_loop_def)
  have f2: "fresh ?c2" using g by (intro fresh_await_settle) simp_all
  have lt2: "tid < nextId ?c2" using g by simp
  have w2: "waiting ?c2 tid = Some (AllLoopK (acc @ r) rest)" by (simp add: waiting_await_same)
  have ne: "evs' \<noteq> []" using e(3) rs(2) by (cases rs') auto
  then have l: "settles tid (last evs')" using Cons.prems(6) by (simp add: e(1))
  from Cons.IH[OF f2 lt2 w2 e(3) rs(2) l] show ?case
    unfolding e(1) plansRun_append plansRun_Cons step by (simp add: rs(1))
qed

lemma users_step_interleaved:
  assumes f: "fresh c" and w: "waiting c tid = Some AllUsersK"
      and own: "map snd (filter (settles tid) evs) = Settled tid (Inr (UsersData (u # rest))) # xs"
  obtains g d evs' where "evs = g @ (d, Settled tid (Inr (UsersData (u # rest)))) # evs'"
    "\<forall>ev \<in> set g. \<not> settles tid ev" "map snd (filter (settles tid) evs') = xs"
    "plansRun js (g @ [(d, Settled tid (Inr (UsersData (u # rest))))]) c =
       await tid (AllLoopK [] rest) (GET_plans_user_assignments (userId u)) (settle tid (plansRun js g c))"
    "fresh (await tid (AllLoopK [] rest) (GET_plans_user_assignments (userId u)) (settle tid (plansRun js g c)))"
    "tid < nextId (plansRun js g c)"
proof -
  from own obtain g d evs' where e: "evs = g @ (d, Settled tid (Inr (UsersData (u # rest)))) # evs'"
      "\<forall>ev \<in> set g. \<not> settles tid ev" "map snd (filter (settles tid) evs') = xs"
    by (rule own_events_Cons)
  note lt = fresh_waiting_less[OF f w]
  note g = gap_run[OF f lt e(2), of js]
  have step: "plansRun js (g @ [(d, Settled tid (Inr (UsersData (u # rest))))]) c =
       await tid (AllLoopK [] rest) (GET_plans_user_assignments (userId u)) (settle tid (plansRun js g c))"
    using g w by (simp add: plansRun_append plansRun_Cons plansRun_Nil fetchAllPlanAssignments_users_def
        fetchAllPlanAssignments_loop_def)
  have f2: "fresh (await tid (AllLoopK [] rest) (GET_plans_user_assignments (userId u)) (settle tid (plansRun js g c)))"
    using g by (intro fresh_await_settle) simp_all
  from that[OF e step f2] g show thesis by simp
qed

text \<open>
  The list an aggregation stores, from any configuration with fresh identifiers in which
  it waits for the member list.
\<close>

lemma aggregation_concat:
  assumes f: "fresh c"
      and w: "waiting c tid = Some AllUsersK"
      and own: "map snd (filter (settles tid) evs) = Settled tid (Inr (UsersData us)) # assignmentResults tid rs"
      and len: "length rs = length us"
      and fin: "settles tid (last evs)"
  shows "planAssignments (st (plansRun js evs c)) = concat rs"
proof -
  note lt = fresh_waiting_less[OF f w]
  show ?thesis
  proof (cases us)
    case Nil
    from own obtain g d evs' where e: "evs = g @ (d, Settled tid (Inr (UsersData us))) # evs'"
        "\<forall>ev \<in> set g. \<not> settles tid ev" "map snd (filter (settles tid) evs') = assignmentResults tid rs"
      by (rule own_events_Cons)
    from len Nil e(3) have "filter (settles tid) evs' = []" by simp
    with fin have "evs' = []" unfolding e(1) by (intro own_events_Nil_last[of tid evs']) auto
    moreover note gap_run[OF f lt e(2), of js]
    ultimately show ?thesis using w len Nil
      by (simp add: e(1) plansRun_append plansRun_Cons plansRun_Nil fetchAllPlanAssignments_users_def
          fetchAllPlanAssignments_loop_def)
  next
    case (Cons u rest)
    from f w own[unfolded Cons] obtain g d evs' where
      e: "evs = g @ (d, Settled tid (Inr (UsersData (u # rest)))) # evs'"
         "map snd (filter (settles tid) evs') = assignmentResults tid rs"
         "plansRun js (g @ [(d, Settled tid (Inr (UsersData (u # rest))))]) c =
            await tid (AllLoopK [] rest) (GET_plans_user_assignments (userId u)) (settle tid (plansRun js g c))"
         "fresh (await tid (AllLoopK [] rest) (GET_plans_user_assignments (userId u)) (settle tid (plansRun js g c)))"
         "tid < nextId (plansRun js g c)"
      by (rule users_step_interleaved[where js = js]) blast
    let ?c2 = "await tid (AllLoopK [] rest) (GET_plans_user_assignments (userId u)) (settle tid (plansRun js g c))"
    have w2: "waiting ?c2 tid = Some (AllLoopK [] rest)" by (simp add: waiting_await_same)
    have l2: "length rs = Suc (length rest)" using len Cons by simp
    then have "evs' \<noteq> []" using e(2) by (cases rs) auto
    then have fin2: "settles tid (last evs')" using fin by (simp add: e(1))
    have lt2: "tid < nextId ?c2" using e(5) by simp
    have split: "plansRun js evs c = plansRun js evs' ?c2"
      using e(3) by (simp add: e(1) plansRun_append plansRun_Cons plansRun_Nil)
    from loop_interleaved[OF e(4) lt2 w2 e(2) l2 fin2, of js] show ?thesis
      by (simp add: split)
  qed
qed

lemmas plans_eval = plansRun_Nil plansRun_Cons plansMounted_def plansInitialState_def
  fetchPlans_def fetchPlans_resume_def fetchUsersForAssignment_def fetchUsersForAssignment_resume_def
  fetchAllPlanAssignments_def fetchAllPlanAssignments_users_def fetchAllPlanAssignments_next_def
  fetchAllPlanAssignments_loop_def fetchAllPlanAssignments_failed_def
  handlePlanInputChange_def handlePlanFormSubmit_def handlePlanFormSubmit_resume_def
  handleEditPlanClick_def handleDeletePlanClick_def handleDeletePlanClick_resume_def
  handleAssignInputChange_def handleAssignFormSubmit_def handleAssignFormSubmit_resume_def
  togglePlanFormClick_def toggleAssignFormClick_def cancelEditClick_def
  emptyPlanForm_def emptyAssignForm_def jsExample_def memberExample_def planExample_def
  waiting_def Let_def

lemma plansMounted_eval:
  "waiting (plansMounted ''2025-01-01'' :: string plansConfig) 2 = Some AllUsersK"
  "sent (plansMounted ''2025-01-01'' :: string plansConfig) = [GET_plans, GET_users, GET_users]"
  by (simp_all add: plans_eval)

lemma aggregationRerun_eval:
  "waiting aggregationRerun 5 = Some AllUsersK"
  "planAssignments (st aggregationRerun) = [assignmentExample ''11'']"
  by (simp_all add: aggregationRerun_def plans_eval)

text \<open>
  C1. \<^verbatim>\<open>fetchAllPlanAssignments\<close> first sends \<^verbatim>\<open>GET /users\<close> and waits for it. Take any
  configuration the page can reach in which an aggregation waits for that call, and any
  further run of the page, with any other events in between, in which the call resolves
  with the members \<open>us\<close>, the per-member calls then resolve with \<open>rs\<close>, one result per
  member, and the last of them ends the run. Then \<^verbatim>\<open>planAssignments\<close> is the concatenation
  of \<open>rs\<close>: member order first, and within a member the order of the response. With no
  other event in between, the requests sent are those for the assignments of each member,
  in the order of \<open>us\<close>.
\<close>

theorem fetchAllPlanAssignments_concatenates:
  assumes reach: "c = plansRun js evs0 (plansMounted d0)"
      and w: "waiting c tid = Some AllUsersK"
      and own: "map snd (filter (settles tid) evs) = Settled tid (Inr (UsersData us)) # assignmentResults tid rs"
      and len: "length rs = length us"
      and fin: "settles tid (last evs)"
  shows "sent (fetchAllPlanAssignments c') = sent c' @ [GET_users] \<and>
         pending (fetchAllPlanAssignments c') = pending c' @ [(nextId c', AllUsersK)] \<and>
         planAssignments (st (plansRun js evs c)) = concat rs \<and>
         (list_all (settles tid) evs \<longrightarrow>
            sent (plansRun js evs c) = sent c @ map (\<lambda>u. GET_plans_user_assignments (userId u)) us)"
proof -
  have f: "fresh c" unfolding reach by (intro fresh_plansRun fresh_plansMounted)
  note lt = fresh_waiting_less[OF f w]
  have start: "sent (fetchAllPlanAssignments c') = sent c' @ [GET_users] \<and>
         pending (fetchAllPlanAssignments c') = pending c' @ [(nextId c', AllUsersK)]"
    by (simp add: fetchAllPlanAssignments_def)
  have res: "planAssignments (st (plansRun js evs c)) = concat rs"
    using f w own len fin by (rule aggregation_concat)
  have log: "list_all (settles tid) evs \<longrightarrow>
            sent (plansRun js evs c) = sent c @ map (\<lambda>u. GET_plans_user_assignments (userId u)) us"
  proof
    assume "list_all (settles tid) evs"
    then have "filter (settles tid) evs = evs" by (simp add: list_all_iff)
    with own obtain d evs' where e: "evs = (d, Settled tid (Inr (UsersData us))) # evs'"
        "map snd evs' = assignmentResults tid rs"
      by (cases evs) auto
    show "sent (plansRun js evs c) = sent c @ map (\<lambda>u. GET_plans_user_assignments (userId u)) us"
    proof (cases us)
      case Nil
      with len e(2) have "evs' = []" by simp
      then show ?thesis using w Nil
        by (simp add: e(1) plansRun_Nil plansRun_Cons fetchAllPlanAssignments_users_def
            fetchAllPlanAssignments_loop_def)
    next
      case (Cons u rest)
      let ?c2 = "await tid (AllLoopK [] rest) (GET_plans_user_assignments (userId u)) (settle tid c)"
      have step: "plansStep js (d, Settled tid (Inr (UsersData us))) c = ?c2"
        using w by (simp add: Cons fetchAllPlanAssignments_users_def fetchAllPlanAssignments_loop_def)
      have w2: "waiting ?c2 tid = Some (AllLoopK [] rest)" by (simp add: waiting_await_same)
      have "length rs = Suc (length rest)" using len Cons by simp
      from loop_finish[OF w2 e(2) this, of js] show ?thesis
        unfolding e(1) plansRun_Cons step by (simp add: Cons)
    qed
  qed
  from start res log show ?thesis by blast
qed

theorem fetchAllPlanAssignments_concatenates_witness:
  "planAssignments (st (plansRun jsExample
      [(''2025-01-01'', Settled 2 (Inr (UsersData [memberExample ''m1'', memberExample ''m2'', memberExample ''m3'']))),
       (''2025-01-01'', Settled 0 (Inr (PlansData [planExample]))),
       (''2025-01-01'', Settled 2 (Inr (AssignmentsData [assignmentExample ''11'']))),
       (''2025-01-01'', UI TogglePlanForm),
       (''2025-01-01'', Settled 2 (Inr (AssignmentsData [assignmentExample ''12'', assignmentExample ''13'']))),
       (''2025-01-01'', Settled 1 (Inr (UsersData [memberExample ''m1'']))),
       (''2025-01-02'', Settled 2 (Inr (AssignmentsData [])))]
      (plansMounted ''2025-01-01'')))
   = [assignmentExample ''11'', assignmentExample ''12'', assignmentExample ''13''] \<and>
   sent (plansRun jsExample
      [(''2025-01-01'', Settled 2 (Inr (UsersData [memberExample ''m1'', memberExample ''m2'', memberExample ''m3'']))),
       (''2025-01-01'', Settled 2 (Inr (AssignmentsData [assignmentExample ''11'']))),
       (''2025-01-01'', Settled 2 (Inr (AssignmentsData [assignmentExample ''12'', assignmentExample ''13'']))),
       (''2025-01-02'', Settled 2 (Inr (AssignmentsData [])))]
      (plansMounted ''2025-01-01''))
   = [GET_plans, GET_users, GET_users, GET_plans_user_assignments ''m1'',
      GET_plans_user_assignments ''m2'', GET_plans_user_assignments ''m3'']"
proof -
  let ?start = "plansMounted ''2025-01-01'' :: string plansConfig"
  let ?us = "[memberExample ''m1'', memberExample ''m2'', memberExample ''m3'']"
  let ?rs = "[[assignmentExample ''11''], [assignmentExample ''12'', assignmentExample ''13''], []]"
  let ?mixed = "[(''2025-01-01'', Settled 2 (Inr (UsersData ?us))),
       (''2025-01-01'', Settled 0 (Inr (PlansData [planExample]))),
       (''2025-01-01'', Settled 2 (Inr (AssignmentsData [assignmentExample ''11'']))),
       (''2025-01-01'', UI TogglePlanForm),
       (''2025-01-01'', Settled 2 (Inr (AssignmentsData [assignmentExample ''12'', assignmentExample ''13'']))),
       (''2025-01-01'', Settled 1 (Inr (UsersData [memberExample ''m1'']))),
       (''2025-01-02'', Settled 2 (Inr (AssignmentsData [])))]"
  let ?alone = "[(''2025-01-01'', Settled 2 (Inr (UsersData ?us))),
       (''2025-01-01'', Settled 2 (Inr (AssignmentsData [assignmentExample ''11'']))),
       (''2025-01-01'', Settled 2 (Inr (AssignmentsData [assignmentExample ''12'', assignmentExample ''13'']))),
       (''2025-01-02'', Settled 2 (Inr (AssignmentsData [])))]"
  have reach: "?start = plansRun jsExample [] (plansMounted ''2025-01-01'')"
    by (simp add: plansRun_Nil)
  note w = plansMounted_eval(1)
  have len: "length ?rs = length ?us" by simp
  have own1: "map snd (filter (settles 2) ?mixed) = Settled 2 (Inr (UsersData ?us)) # assignmentResults 2 ?rs"
    by (simp add: settles_def)
  have fin1: "settles 2 (last ?mixed)" by (simp add: settles_def)
  have own2: "map snd (filter (settles 2) ?alone) = Settled 2 (Inr (UsersData ?us)) # assignmentResults 2 ?rs"
    by (simp add: settles_def)
  have fin2: "settles 2 (last ?alone)" by (simp add: settles_def)
  have all2: "list_all (settles 2) ?alone" by (simp add: settles_def)
  from fetchAllPlanAssignments_concatenates[OF reach w own1 len fin1, where c' = ?start]
  have "planAssignments (st (plansRun jsExample ?mixed ?start)) = concat ?rs"
    by blast
  then have 1: "planAssignments (st (plansRun jsExample ?mixed ?start))
             = [assignmentExample ''11'', assignmentExample ''12'', assignmentExample ''13'']"
    by simp
  from fetchAllPlanAssignments_concatenates[OF reach w own2 len fin2, where c' = ?start] all2
  have "sent (plansRun jsExample ?alone ?start)
          = sent ?start @ map (\<lambda>u. GET_plans_user_assignments (userId u)) ?us"
    by blast
  then have 2: "sent (plansRun jsExample ?alone ?start)
             = [GET_plans, GET_users, GET_users, GET_plans_user_assignments ''m1'',
                GET_plans_user_assignments ''m2'', GET_plans_user_assignments ''m3'']"
    by (simp add: plansMounted_eval(2) memberExample_def)
  from 1 2 show ?thesis by blast
qed

text \<open>Decomposing a run at an event of the aggregation; a list no step writes is unchanged.\<close>

lemma split_at_own:
  assumes "g @ e1 # rest = pre @ e # post" "\<forall>x \<in> set g. \<not> P x" "P e"
  shows "(pre = g \<and> e = e1 \<and> post = rest) \<or> (\<exists>pre'. pre = g @ e1 # pre' \<and> rest = pre' @ e # post)"
  using assms
proof (induction g arbitrary: pre)
  case Nil
  then show ?case by (cases pre) auto
next
  case (Cons a g)
  show ?case
  proof (cases pre)
    case Nil
    with Cons.prems show ?thesis by auto
  next
    case (Cons b pre'')
    with Cons.prems Cons.IH[of pre''] show ?thesis by auto
  qed
qed

lemma all_steps_keep:
  "(\<forall>pre e post. evs = pre @ e # post \<longrightarrow>
      planAssignments (st (plansRun js (pre @ [e]) c)) = planAssignments (st (plansRun js pre c))) \<Longrightarrow>
   planAssignments (st (plansRun js evs c)) = planAssignments (st c)"
proof (induction evs rule: rev_induct)
  case Nil
  then show ?case by (simp add: plansRun_Nil)
next
  case (snoc x xs)
  have "planAssignments (st (plansRun js (xs @ [x]) c)) = planAssignments (st (plansRun js xs c))"
    using snoc.prems by blast
  moreover have "planAssignments (st (plansRun js xs c)) = planAssignments (st c)"
  proof (rule snoc.IH, intro allI impI)
    fix pre e post assume "xs = pre @ e # post"
    then have "xs @ [x] = pre @ e # (post @ [x])" by simp
    with snoc.prems show "planAssignments (st (plansRun js (pre @ [e]) c)) = planAssignments (st (plansRun js pre c))"
      by blast
  qed
  ultimately show ?case by simp
qed

text \<open>
  An aggregation in its loop that ends on a rejected call: the error is set, and none of
  its own steps writes the list.
\<close>
lemma loop_failure_interleaved:
  assumes "fresh c" "tid < nextId c" "waiting c tid = Some (AllLoopK acc rest)"
      and "map snd (filter (settles tid) evs) = assignmentResults tid rs @ [Settled tid (Inl err)]"
      and "length rs \<le> length rest"
      and "settles tid (last evs)"
  shows "error (st (plansRun js evs c)) = Some ''Failed to load plan assignments.'' \<and>
         (\<forall>pre e post. evs = pre @ e # post \<and> settles tid e \<longrightarrow>
            planAssignments (st (plansRun js (pre @ [e]) c)) = planAssignments (st (plansRun js pre c)))"
  using assms
proof (induction rs arbitrary: c acc rest evs)
  case Nil
  from Nil.prems(4) obtain g d evs' where e: "evs = g @ (d, Settled tid (Inl err)) # evs'"
      "\<forall>ev \<in> set g. \<not> settles tid ev" "map snd (filter (settles tid) evs') = []"
    unfolding assignmentResults_simps append_Nil by (rule own_events_Cons)
  from e(3) Nil.prems(6) have nil: "evs' = []" unfolding e(1) by (intro own_events_Nil_last[of tid evs']) auto
  note g = gap_run[OF Nil.prems(1,2) e(2), of js]
  have wg: "waiting (plansRun js g c) tid = Some (AllLoopK acc rest)" using g Nil.prems(3) by simp
  have last_step: "plansRun js (g @ [(d, Settled tid (Inl err))]) c =
      fetchAllPlanAssignments_failed (settle tid (plansRun js g c))"
    using wg by (simp add: plansRun_append plansRun_Cons plansRun_Nil fetchAllPlanAssignments_next_def)
  have err: "error (st (plansRun js evs c)) = Some ''Failed to load plan assignments.''"
    using last_step by (simp add: e(1) nil fetchAllPlanAssignments_failed_def)
  have own: "\<forall>pre e post. evs = pre @ e # post \<and> settles tid e \<longrightarrow>
            planAssignments (st (plansRun js (pre @ [e]) c)) = planAssignments (st (plansRun js pre c))"
  proof (intro allI impI, elim conjE)
    fix pre e post assume d: "evs = pre @ e # post" and s: "settles tid e"
    from split_at_own[OF d[unfolded e(1)] e(2) s] nil
    have "pre = g \<and> e = (d, Settled tid (Inl err))" by auto
    then show "planAssignments (st (plansRun js (pre @ [e]) c)) = planAssignments (st (plansRun js pre c))"
      using last_step by (simp add: fetchAllPlanAssignments_failed_def)
  qed
  from err own show ?case by blast
next
  case (Cons r rs)
  then obtain u rest' where rest: "rest = u # rest'" "length rs \<le> length rest'" by (cases rest) auto
  from Cons.prems(4) obtain g d evs' where e: "evs = g @ (d, Settled tid (Inr (AssignmentsData r))) # evs'"
      "\<forall>ev \<in> set g. \<not> settles tid ev"
      "map snd (filter (settles tid) evs') = assignmentResults tid rs @ [Settled tid (Inl err)]"
    unfolding assignmentResults_simps append_Cons by (rule own_events_Cons)
  let ?c1 = "plansRun js g c"
  let ?e1 = "(d, Settled tid (Inr (AssignmentsData r)))"
  note g = gap_run[OF Cons.prems(1,2) e(2), of js]
  let ?c2 = "await tid (AllLoopK (acc @ r) rest') (GET_plans_user_assignments (userId u)) (settle tid ?c1)"
  have step: "plansStep js ?e1 ?c1 = ?c2"
    using g Cons.prems(3) by (simp add: rest(1) fetchAllPlanAssignments_next_def fetchAllPlanAssignments_loop_def)
  have run1: "plansRun js (g @ [?e1]) c = ?c2"
    unfolding plansRun_append plansRun_Cons plansRun_Nil by (rule step)
  have f2: "fresh ?c2" using g by (intro fresh_await_settle) simp_all
  have lt2: "tid < nextId ?c2" using g by simp
  have w2: "waiting ?c2 tid = Some (AllLoopK (acc @ r) rest')" by (simp add: waiting_await_same)
  have ne: "evs' \<noteq> []" using e(3) by auto
  then have l: "settles tid (last evs')" using Cons.prems(6) by (simp add: e(1))
  note IH = Cons.IH[OF f2 lt2 w2 e(3) rest(2) l]
  have cont: "\<And>xs. plansRun js (g @ ?e1 # xs) c = plansRun js xs ?c2"
    using run1 by (simp add: plansRun_append plansRun_Cons plansRun_Nil)
  have err: "error (st (plansRun js evs c)) = Some ''Failed to load plan assignments.''"
    using IH by (simp add: e(1) cont)
  have own: "\<forall>pre e post. evs = pre @ e # post \<and> settles tid e \<longrightarrow>
            planAssignments (st (plansRun js (pre @ [e]) c)) = planAssignments (st (plansRun js pre c))"
  proof (intro allI impI, elim conjE)
    fix pre e post assume d: "evs = pre @ e # post" and s: "settles tid e"
    from split_at_own[OF d[unfolded e(1)] e(2) s]
    show "planAssignments (st (plansRun js (pre @ [e]) c)) = planAssignments (st (plansRun js pre c))"
    proof
      assume "pre = g \<and> e = ?e1 \<and> post = evs'"
      then show ?thesis using run1 by simp
    next
      assume "\<exists>pre'. pre = g @ ?e1 # pre' \<and> evs' = pre' @ e # post"
      then obtain pre' where p: "pre = g @ ?e1 # pre'" "evs' = pre' @ e # post" by blast
      from IH p(2) s have "planAssignments (st (plansRun js (pre' @ [e]) ?c2)) =
          planAssignments (st (plansRun js pre' ?c2))" by blast
      then show ?thesis using cont[of "pre' @ [e]"] cont[of pre'] by (simp add: p(1))
    qed
  qed
  from err own show ?case by blast
qed

text \<open>
  C2 as the code has it. \<^verbatim>\<open>fetchAllPlanAssignments\<close> does not write \<^verbatim>\<open>planAssignments\<close>
  before its first \<^verbatim>\<open>await\<close>. Take any reachable configuration in which an aggregation
  waits for the member list, and any further run, other events interleaved at will, in
  which that call rejects, or resolves and a per-member call rejects after any number of
  them have resolved, the rejection ending the run. Then the error message of the
  aggregation is set and shown, and no step of the aggregation writes
  \<^verbatim>\<open>planAssignments\<close>; so that, if no other event of the run writes it either, it is at the
  end what it was before.
\<close>

theorem fetchAllPlanAssignments_all_or_nothing:
  assumes reach: "c = plansRun js evs0 (plansMounted d0)"
      and w: "waiting c tid = Some AllUsersK"
      and own: "map snd (filter (settles tid) evs) = [Settled tid (Inl err)] \<or>
                (map snd (filter (settles tid) evs) =
                   Settled tid (Inr (UsersData us)) # assignmentResults tid rs @ [Settled tid (Inl err)] \<and>
                 length rs < length us)"
      and fin: "settles tid (last evs)"
  shows "planAssignments (st (fetchAllPlanAssignments c')) = planAssignments (st c') \<and>
         error (st (plansRun js evs c)) = Some ''Failed to load plan assignments.'' \<and>
         shown (error (st (plansRun js evs c))) \<noteq> None \<and>
         (\<forall>pre e post. evs = pre @ e # post \<and> settles tid e \<longrightarrow>
            planAssignments (st (plansRun js (pre @ [e]) c)) = planAssignments (st (plansRun js pre c))) \<and>
         ((\<forall>pre e post. evs = pre @ e # post \<and> \<not> settles tid e \<longrightarrow>
             planAssignments (st (plansRun js (pre @ [e]) c)) = planAssignments (st (plansRun js pre c))) \<longrightarrow>
          planAssignments (st (plansRun js evs c)) = planAssignments (st c))"
proof -
  have f: "fresh c" unfolding reach by (intro fresh_plansRun fresh_plansMounted)
  note lt = fresh_waiting_less[OF f w]
  have start: "planAssignments (st (fetchAllPlanAssignments c')) = planAssignments (st c')"
    by (simp add: fetchAllPlanAssignments_def)
  have main: "error (st (plansRun js evs c)) = Some ''Failed to load plan assignments.'' \<and>
         (\<forall>pre e post. evs = pre @ e # post \<and> settles tid e \<longrightarrow>
            planAssignments (st (plansRun js (pre @ [e]) c)) = planAssignments (st (plansRun js pre c)))"
    using own
  proof
    assume "map snd (filter (settles tid) evs) = [Settled tid (Inl err)]"
    then obtain g d evs' where e: "evs = g @ (d, Settled tid (Inl err)) # evs'"
        "\<forall>ev \<in> set g. \<not> settles tid ev" "map snd (filter (settles tid) evs') = []"
      by (rule own_events_Cons)
    from e(3) fin have nil: "evs' = []" unfolding e(1) by (intro own_events_Nil_last[of tid evs']) auto
    note g = gap_run[OF f lt e(2), of js]
    have last_step: "plansRun js (g @ [(d, Settled tid (Inl err))]) c =
        fetchAllPlanAssignments_failed (settle tid (plansRun js g c))"
      using g w by (simp add: plansRun_append plansRun_Cons plansRun_Nil fetchAllPlanAssignments_users_def)
    have err: "error (st (plansRun js evs c)) = Some ''Failed to load plan assignments.''"
      using last_step by (simp add: e(1) nil fetchAllPlanAssignments_failed_def)
    have keep: "\<forall>pre e post. evs = pre @ e # post \<and> settles tid e \<longrightarrow>
            planAssignments (st (plansRun js (pre @ [e]) c)) = planAssignments (st (plansRun js pre c))"
    proof (intro allI impI, elim conjE)
      fix pre e post assume d: "evs = pre @ e # post" and s: "settles tid e"
      from split_at_own[OF d[unfolded e(1)] e(2) s] nil
      have "pre = g \<and> e = (d, Settled tid (Inl err))" by auto
      then show "planAssignments (st (plansRun js (pre @ [e]) c)) = planAssignments (st (plansRun js pre c))"
        using last_step by (simp add: fetchAllPlanAssignments_failed_def)
    qed
    from err keep show ?thesis by blast
  next
    assume a: "map snd (filter (settles tid) evs) =
                 Settled tid (Inr (UsersData us)) # assignmentResults tid rs @ [Settled tid (Inl err)] \<and>
               length rs < length us"
    then obtain u rest where us: "us = u # rest" "length rs \<le> length rest" by (cases us) auto
    from a have own': "map snd (filter (settles tid) evs) =
       Settled tid (Inr (UsersData (u # rest))) # assignmentResults tid rs @ [Settled tid (Inl err)]"
      by (simp add: us(1))
    from f w own' obtain g d evs' where
      e: "evs = g @ (d, Settled tid (Inr (UsersData (u # rest)))) # evs'"
         "\<forall>ev \<in> set g. \<not> settles tid ev"
         "map snd (filter (settles tid) evs') = assignmentResults tid rs @ [Settled tid (Inl err)]"
         "plansRun js (g @ [(d, Settled tid (Inr (UsersData (u # rest))))]) c =
            await tid (AllLoopK [] rest) (GET_plans_user_assignments (userId u)) (settle tid (plansRun js g c))"
         "fresh (await tid (AllLoopK [] rest) (GET_plans_user_assignments (userId u)) (settle tid (plansRun js g c)))"
         "tid < nextId (plansRun js g c)"
      by (rule users_step_interleaved[where js = js]) blast
    let ?e1 = "(d, Settled tid (Inr (UsersData (u # rest))))"
    let ?c2 = "await tid (AllLoopK [] rest) (GET_plans_user_assignments (userId u)) (settle tid (plansRun js g c))"
    have w2: "waiting ?c2 tid = Some (AllLoopK [] rest)" by (simp add: waiting_await_same)
    have "evs' \<noteq> []" using e(3) by auto
    then have fin2: "settles tid (last evs')" using fin by (simp add: e(1))
    have lt2: "tid < nextId ?c2" using e(6) by simp
    note L = loop_failure_interleaved[OF e(5) lt2 w2 e(3) us(2) fin2, of js]
    have cont: "\<And>xs. plansRun js (g @ ?e1 # xs) c = plansRun js xs ?c2"
      using e(4) by (simp add: plansRun_append plansRun_Cons plansRun_Nil)
    have err: "error (st (plansRun js evs c)) = Some ''Failed to load plan assignments.''"
      using L by (simp add: e(1) cont)
    have keep: "\<forall>pre e post. evs = pre @ e # post \<and> settles tid e \<longrightarrow>
            planAssignments (st (plansRun js (pre @ [e]) c)) = planAssignments (st (plansRun js pre c))"
    proof (intro allI impI, elim conjE)
      fix pre e post assume d: "evs = pre @ e # post" and s: "settles tid e"
      from split_at_own[OF d[unfolded e(1)] e(2) s]
      show "planAssignments (st (plansRun js (pre @ [e]) c)) = planAssignments (st (plansRun js pre c))"
      proof
        assume "pre = g \<and> e = ?e1 \<and> post = evs'"
        then show ?thesis using e(4) by simp
      next
        assume "\<exists>pre'. pre = g @ ?e1 # pre' \<and> evs' = pre' @ e # post"
        then obtain pre' where p: "pre = g @ ?e1 # pre'" "evs' = pre' @ e # post" by blast
        from L p(2) s have "planAssignments (st (plansRun js (pre' @ [e]) ?c2)) =
            planAssignments (st (plansRun js pre' ?c2))" by blast
        then show ?thesis using cont[of "pre' @ [e]"] cont[of pre'] by (simp add: p(1))
      qed
    qed
    from err keep show ?thesis by blast
  qed
  have frame: "(\<forall>pre e post. evs = pre @ e # post \<and> \<not> settles tid e \<longrightarrow>
             planAssignments (st (plansRun js (pre @ [e]) c)) = planAssignments (st (plansRun js pre c))) \<longrightarrow>
          planAssignments (st (plansRun js evs c)) = planAssignments (st c)"
  proof
    assume o: "\<forall>pre e post. evs = pre @ e # post \<and> \<not> settles tid e \<longrightarrow>
             planAssignments (st (plansRun js (pre @ [e]) c)) = planAssignments (st (plansRun js pre c))"
    show "planAssignments (st (plansRun js evs c)) = planAssignments (st c)"
    proof (rule all_steps_keep, intro allI impI)
      fix pre e post assume d: "evs = pre @ e # post"
      show "planAssignments (st (plansRun js (pre @ [e]) c)) = planAssignments (st (plansRun js pre c))"
        using main o d by (cases "settles tid e") blast+
    qed
  qed
  from start main frame show ?thesis by (simp add: shown_def truthy_def)
qed


theorem fetchAllPlanAssignments_all_or_nothing_witness:
  "planAssignments (st (plansRun jsExample
      [(''2025-01-02'', Settled 5 (Inr (UsersData [memberExample ''m1'', memberExample ''m2'']))),
       (''2025-01-02'', Settled 4 (Inr (PlansData []))),
       (''2025-01-02'', Settled 5 (Inr (AssignmentsData [assignmentExample ''14'']))),
       (''2025-01-02'', UI ToggleAssignForm),
       (''2025-01-02'', Settled 5 (Inl (AxiosError None)))]
      aggregationRerun))
   = [assignmentExample ''11''] \<and>
   error (st (plansRun jsExample
      [(''2025-01-02'', Settled 5 (Inr (UsersData [memberExample ''m1'', memberExample ''m2'']))),
       (''2025-01-02'', Settled 4 (Inr (PlansData []))),
       (''2025-01-02'', Settled 5 (Inr (AssignmentsData [assignmentExample ''14'']))),
       (''2025-01-02'', UI ToggleAssignForm),
       (''2025-01-02'', Settled 5 (Inl (AxiosError None)))]
      aggregationRerun))
   = Some ''Failed to load plan assignments.''"
proof -
  let ?us = "[memberExample ''m1'', memberExample ''m2'']"
  let ?rs = "[[assignmentExample ''14'']]"
  let ?err = "AxiosError None :: string axiosError"
  let ?evs = "[(''2025-01-02'', Settled 5 (Inr (UsersData ?us))),
       (''2025-01-02'', Settled 4 (Inr (PlansData []))),
       (''2025-01-02'', Settled 5 (Inr (AssignmentsData [assignmentExample ''14'']))),
       (''2025-01-02'', UI (ToggleAssignForm :: string plansUI)),
       (''2025-01-02'', Settled 5 (Inl ?err))]"
  note reach = aggregationRerun_def
  note w = aggregationRerun_eval(1)
  have own: "map snd (filter (settles 5) ?evs) = [Settled 5 (Inl ?err)] \<or>
       (map snd (filter (settles 5) ?evs) =
          Settled 5 (Inr (UsersData ?us)) # assignmentResults 5 ?rs @ [Settled 5 (Inl ?err)] \<and>
        length ?rs < length ?us)"
    by (simp add: settles_def)
  have fin: "settles 5 (last ?evs)" by (simp add: settles_def)
  have others: "\<forall>pre e post. ?evs = pre @ e # post \<and> \<not> settles 5 e \<longrightarrow>
      planAssignments (st (plansRun jsExample (pre @ [e]) aggregationRerun)) =
      planAssignments (st (plansRun jsExample pre aggregationRerun))"
  proof (intro allI impI, elim conjE)
    fix pre e post assume d: "?evs = pre @ e # post" and n: "\<not> settles 5 e"
    have "e \<in> set ?evs" by (subst d) simp
    with n have "keepsAssignments e" by (auto simp: settles_def keepsAssignments_def)
    then show "planAssignments (st (plansRun jsExample (pre @ [e]) aggregationRerun)) =
      planAssignments (st (plansRun jsExample pre aggregationRerun))"
      by (simp add: plansRun_append plansRun_Cons plansRun_Nil keeps_step)
  qed
  from fetchAllPlanAssignments_all_or_nothing[OF reach w own fin, where c' = aggregationRerun] others
  have "planAssignments (st (plansRun jsExample ?evs aggregationRerun)) = planAssignments (st aggregationRerun) \<and>
        error (st (plansRun jsExample ?evs aggregationRerun)) = Some ''Failed to load plan assignments.''"
    by blast
  with aggregationRerun_eval(2) show ?thesis by simp
qed

text \<open>
  C2 as stated fails where another aggregation completes while this one is under way:
  the aggregation started by the delete fails, the start-up aggregation stores its
  result in between, and \<^verbatim>\<open>planAssignments\<close> is not what it was when the failing one
  started.
\<close>

theorem fetchAllPlanAssignments_all_or_nothing_counterexample:
  "waiting twoAggregations 5 = Some AllUsersK \<and>
   planAssignments (st twoAggregations) = [] \<and>
   planAssignments (st (plansRun jsExample
      [(''2025-01-01'', Settled 5 (Inr (UsersData [memberExample ''m1'']))),
       (''2025-01-01'', Settled 2 (Inr (UsersData [memberExample ''m1'']))),
       (''2025-01-01'', Settled 2 (Inr (AssignmentsData [assignmentExample ''11'']))),
       (''2025-01-01'', Settled 5 (Inl (AxiosError None)))]
      twoAggregations)) = [assignmentExample ''11''] \<and>
   error (st (plansRun jsExample
      [(''2025-01-01'', Settled 5 (Inr (UsersData [memberExample ''m1'']))),
       (''2025-01-01'', Settled 2 (Inr (UsersData [memberExample ''m1'']))),
       (''2025-01-01'', Settled 2 (Inr (AssignmentsData [assignmentExample ''11'']))),
       (''2025-01-01'', Settled 5 (Inl (AxiosError None)))]
      twoAggregations)) = Some ''Failed to load plan assignments.''"
  by (simp add: twoAggregations_def plans_eval)


subsection \<open>The attendance page\<close>

lemma attRun_Nil: "attRun js [] c = c" by (simp add: attRun_def)
lemma attRun_Cons: "attRun js (e # es) c = attRun js es (attStep js e c)" by (simp add: attRun_def)
lemma attRun_snoc: "attRun js (es @ [e]) c = attStep js e (attRun js es c)" by (simp add: attRun_def)

lemma trim_decomposition:
  "\<exists>pre post. s = pre @ trim s @ post \<and> list_all isSpace pre \<and> list_all isSpace post"
proof -
  let ?pre = "takeWhile isSpace s" and ?mid = "dropWhile isSpace s"
  let ?post = "rev (takeWhile isSpace (rev ?mid))"
  have "?mid = trim s @ ?post"
    unfolding trim_def by (metis rev_append rev_rev_ident takeWhile_dropWhile_id)
  then have "s = ?pre @ trim s @ ?post" by (metis takeWhile_dropWhile_id)
  moreover have "list_all isSpace ?pre" by (simp add: list_all_iff) (meson set_takeWhileD)
  moreover have "list_all isSpace ?post" by (simp add: list_all_iff) (meson set_takeWhileD)
  ultimately show ?thesis by blast
qed

lemma trim_ends:
  assumes "trim s \<noteq> []"
  shows "\<not> isSpace (hd (trim s)) \<and> \<not> isSpace (last (trim s))"
proof -
  let ?mid = "dropWhile isSpace s"
  have r: "dropWhile isSpace (rev ?mid) \<noteq> []" using assms by (simp add: trim_def)
  have ne: "?mid \<noteq> []"
    using r by (metis dropWhile.simps(1) rev.simps(1))
  have l: "\<not> isSpace (last (trim s))"
    unfolding trim_def using r by (simp add: last_rev hd_dropWhile)
  have h0: "\<not> isSpace (hd ?mid)" using ne by (rule hd_dropWhile)
  obtain post where p: "?mid = trim s @ post"
    unfolding trim_def by (metis rev_append rev_rev_ident takeWhile_dropWhile_id)
  have "hd ?mid = hd (trim s @ post)" by (simp only: p [symmetric])
  then have "hd (trim s) = hd ?mid" using assms by simp
  with h0 l show ?thesis by simp
qed

lemmas att_eval = attRun_Nil attRun_Cons attMounted_def attInitialState_def loadInitialData_def loadInitialData_resume_def
      fetchUsersMap_resume_def fetchAttendanceLogs_awaited_def fetchAttendanceLogs_resume_def
      fetchAttendanceLogs_def handleManualCheckInSubmit_def handleCheckIn_def handleCheckIn_resume_def
      checkInUserName_def checkInErrorText_def buildUsersMap_def memberExample_def jsExample_def
      trim_def isSpace_def js_or_def
      waiting_def shown_def truthy_def Let_def

lemma checkInPending_eval:
  "waiting checkInPending 1 = Some (CheckInK (usersMap (st checkInPending)))"
  "usersMap (st checkInPending) ''u-1'' = Some ''Ann''"
  "usersMap (st checkInPending) ''u-123456789'' = Some []"
  "usersMap (st checkInPending) ''stranger-0001'' = None"
  "sent checkInPending = [GET_users, GET_attendance_all, POST_attendance_checkin ''u-1'']"
  "checkInSubmitDisabled (st checkInPending)"
  by (simp_all add: checkInPending_def checkInSubmitDisabled_def att_eval)

text \<open>
  C10. \<^verbatim>\<open>handleManualCheckInSubmit\<close> on an input that trims to the empty string changes
  nothing: no call, same state. On any other input it sends one check-in request, for
  the trimmed input: what is left of the input once the white space at both ends is cut.
\<close>

theorem manual_checkin_submits_trimmed:
  "(trim (userIdInput (st c)) = [] \<longrightarrow> handleManualCheckInSubmit c = c) \<and>
   (trim (userIdInput (st c)) \<noteq> [] \<longrightarrow>
      sent (handleManualCheckInSubmit c) = sent c @ [POST_attendance_checkin (trim (userIdInput (st c)))] \<and>
      pending (handleManualCheckInSubmit c) = pending c @ [(nextId c, CheckInK (usersMap (st c)))] \<and>
      \<not> isSpace (hd (trim (userIdInput (st c)))) \<and> \<not> isSpace (last (trim (userIdInput (st c))))) \<and>
   (\<exists>pre post. userIdInput (st c) = pre @ trim (userIdInput (st c)) @ post \<and>
       list_all isSpace pre \<and> list_all isSpace post)"
  using trim_decomposition[of "userIdInput (st c)"] trim_ends[of "userIdInput (st c)"]
  by (simp add: handleManualCheckInSubmit_def handleCheckIn_def truthy_def Let_def)

theorem manual_checkin_submits_trimmed_witness:
  "handleManualCheckInSubmit (attStep jsExample (UI (ChangeInput ''   '')) attMounted)
     = attStep jsExample (UI (ChangeInput ''   '')) attMounted \<and>
   sent (handleManualCheckInSubmit (attStep jsExample (UI (ChangeInput ''  u-1 '')) attMounted))
     = [GET_users, POST_attendance_checkin ''u-1'']"
proof -
  let ?blank = "attStep jsExample (UI (ChangeInput ''   '')) attMounted"
  let ?typed = "attStep jsExample (UI (ChangeInput ''  u-1 '')) attMounted"
  have b: "trim (userIdInput (st ?blank)) = []" by (simp add: att_eval)
  have t: "trim (userIdInput (st ?typed)) = ''u-1''" "sent ?typed = [GET_users]" by (simp_all add: att_eval)
  from manual_checkin_submits_trimmed[of ?blank] b
  have 1: "handleManualCheckInSubmit ?blank = ?blank" by blast
  from manual_checkin_submits_trimmed[of ?typed] t
  have 2: "sent (handleManualCheckInSubmit ?typed) = [GET_users, POST_attendance_checkin ''u-1'']" by simp
  from 1 2 show ?thesis by blast
qed

text \<open>
  C7 as the code has it. When a check-in call rejects and the body of the error response
  has a non-empty \<^verbatim>\<open>message\<close>, that message is shown; when there is no response, no body,
  no \<^verbatim>\<open>message\<close>, or an empty one, the fixed text is shown.
\<close>

theorem checkIn_failure_message:
  assumes w: "waiting c tid = Some (CheckInK um)"
  shows "(\<forall>m. payloadMessage err = Some m \<and> m \<noteq> [] \<longrightarrow>
            shown (checkInError (st (attStep js (Settled tid (Inl err)) c))) = Some m) \<and>
         (payloadMessage err = None \<or> payloadMessage err = Some [] \<longrightarrow>
            shown (checkInError (st (attStep js (Settled tid (Inl err)) c))) =
              Some ''Failed to check in. Please ensure User ID is valid.'')"
  using w
  by (auto simp: handleCheckIn_resume_def checkInErrorText_def payloadMessage_def truthy_def shown_def
      Let_def split: option.splits)

theorem checkIn_failure_message_witness:
  "shown (checkInError (st (attStep jsExample (Settled 1 (Inl (badRequest (Some ''Membership expired'')))) checkInPending)))
     = Some ''Membership expired'' \<and>
   shown (checkInError (st (attStep jsExample (Settled 1 (Inl (AxiosError None))) checkInPending)))
     = Some ''Failed to check in. Please ensure User ID is valid.''"
proof -
  note w = checkInPending_eval(1)
  have m: "payloadMessage (badRequest (Some ''Membership expired'')) = Some ''Membership expired''"
     "payloadMessage (AxiosError None :: string axiosError) = None"
    by (simp_all add: payloadMessage_def badRequest_def)
  from checkIn_failure_message[OF w, of "badRequest (Some ''Membership expired'')" jsExample] m(1)
  have 1: "shown (checkInError (st (attStep jsExample (Settled 1 (Inl (badRequest (Some ''Membership expired'')))) checkInPending)))
     = Some ''Membership expired''" by simp
  from checkIn_failure_message[OF w, of "AxiosError None" jsExample] m(2)
  have 2: "shown (checkInError (st (attStep jsExample (Settled 1 (Inl (AxiosError None))) checkInPending)))
     = Some ''Failed to check in. Please ensure User ID is valid.''" by simp
  from 1 2 show ?thesis by blast
qed

text \<open>
  C7 as stated fails where the body of the error response has an empty \<^verbatim>\<open>message\<close>: the
  fixed text is shown, not the empty message.
\<close>

theorem checkIn_empty_message_counterexample:
  "payloadMessage (badRequest (Some [])) = Some [] \<and>
   checkInError (st (attStep jsExample (Settled 1 (Inl (badRequest (Some [])))) checkInPending))
     = Some ''Failed to check in. Please ensure User ID is valid.'' \<and>
   checkInError (st (attStep jsExample (Settled 1 (Inl (badRequest (Some [])))) checkInPending)) \<noteq> Some []"
  by (simp add: checkInPending_def payloadMessage_def badRequest_def att_eval)

lemma formatExample_eval:
  "format jsExample ''2025-01-01T10:00:00'' ''HH:mm:ss'' = Some ''10:00:00''"
  "format jsExample ''10:00:00'' ''HH:mm:ss'' = None"
  by (simp_all add: jsExample_def formatExample_def isLocalDateTime_def isDigit_def
      digitsAt_def daysInMonth_def)

text \<open>
  C6 as the code has it. Take a check-in call whose handler holds the id-to-name table that
  the page holds when the call resolves (the table has not changed since the check-in was
  submitted). When the \<^verbatim>\<open>checkInTime\<close> of the response formats, the success message names
  the member by the first eight characters of the response's \<^verbatim>\<open>userId\<close> and three dots if
  the table has no name for that id or an empty one, and by the name of the table
  otherwise, and no error is set. When the \<^verbatim>\<open>checkInTime\<close> does not format, no success
  message is set and the fixed check-in error is shown.
\<close>

theorem checkIn_success_message:
  assumes w: "waiting c tid = Some (CheckInK (usersMap (st c)))"
  shows "(format js t ''HH:mm:ss'' = Some hms \<longrightarrow>
            (usersMap (st c) uid = None \<or> usersMap (st c) uid = Some [] \<longrightarrow>
               shown (checkInMessage (st (attStep js (Settled tid (Inr (CheckInData uid t))) c))) =
                 Some (''User '' @ take 8 uid @ ''...'' @ '' checked in successfully at '' @ hms @ ''!'')) \<and>
            (\<forall>n. usersMap (st c) uid = Some n \<and> n \<noteq> [] \<longrightarrow>
               shown (checkInMessage (st (attStep js (Settled tid (Inr (CheckInData uid t))) c))) =
                 Some (''User '' @ n @ '' checked in successfully at '' @ hms @ ''!'')) \<and>
            checkInError (st (attStep js (Settled tid (Inr (CheckInData uid t))) c)) = checkInError (st c)) \<and>
         (format js t ''HH:mm:ss'' = None \<longrightarrow>
            checkInMessage (st (attStep js (Settled tid (Inr (CheckInData uid t))) c)) = checkInMessage (st c) \<and>
            shown (checkInError (st (attStep js (Settled tid (Inr (CheckInData uid t))) c))) =
              Some ''Failed to check in. Please ensure User ID is valid.'')"
  using w
  by (auto simp: handleCheckIn_resume_def checkInUserName_def checkInErrorText_def js_or_def truthy_def
      shown_def fetchAttendanceLogs_def Let_def)

theorem checkIn_success_message_witness:
  "shown (checkInMessage (st (attStep jsExample
      (Settled 1 (Inr (CheckInData ''stranger-0001'' ''2025-01-01T10:00:00''))) checkInPending)))
     = Some ''User stranger... checked in successfully at 10:00:00!'' \<and>
   shown (checkInMessage (st (attStep jsExample
      (Settled 1 (Inr (CheckInData ''u-1'' ''2025-01-01T10:00:00''))) checkInPending)))
     = Some ''User Ann checked in successfully at 10:00:00!'' \<and>
   shown (checkInError (st (attStep jsExample
      (Settled 1 (Inr (CheckInData ''u-1'' ''10:00:00''))) checkInPending)))
     = Some ''Failed to check in. Please ensure User ID is valid.''"
proof -
  note w = checkInPending_eval(1)
  note f = formatExample_eval
  from checkIn_success_message[OF w, of jsExample "''2025-01-01T10:00:00''" "''10:00:00''" "''stranger-0001''"]
    f(1) checkInPending_eval(4)
  have 1: "shown (checkInMessage (st (attStep jsExample
      (Settled 1 (Inr (CheckInData ''stranger-0001'' ''2025-01-01T10:00:00''))) checkInPending)))
     = Some ''User stranger... checked in successfully at 10:00:00!''" by simp
  from checkIn_success_message[OF w, of jsExample "''2025-01-01T10:00:00''" "''10:00:00''" "''u-1''"]
    f(1) checkInPending_eval(2)
  have 2: "shown (checkInMessage (st (attStep jsExample
      (Settled 1 (Inr (CheckInData ''u-1'' ''2025-01-01T10:00:00''))) checkInPending)))
     = Some ''User Ann checked in successfully at 10:00:00!''" by simp
  from checkIn_success_message[OF w, of jsExample "''10:00:00''" "''10:00:00''" "''u-1''"] f(2)
  have 3: "shown (checkInError (st (attStep jsExample
      (Settled 1 (Inr (CheckInData ''u-1'' ''10:00:00''))) checkInPending)))
     = Some ''Failed to check in. Please ensure User ID is valid.''" by blast
  from 1 2 3 show ?thesis by blast
qed

text \<open>
  C6 as stated fails in three ways. Where the table maps the response's \<^verbatim>\<open>userId\<close> to an
  empty name, the truncated id is displayed, not the name of the table. Where the
  \<^verbatim>\<open>checkInTime\<close> of the response does not format (here a time without a date), no success
  message is set and the check-in error is shown. And where the check-in was submitted
  before the member list arrived, the handler still holds the empty table of its render:
  the page's table has the name by the time the response arrives, and the truncated id is
  displayed all the same.
\<close>

theorem checkIn_mapped_name_counterexample:
  "usersMap (st checkInPending) ''u-123456789'' = Some [] \<and>
   checkInMessage (st (attStep jsExample
      (Settled 1 (Inr (CheckInData ''u-123456789'' ''2025-01-01T10:00:00''))) checkInPending))
     = Some ''User u-123456... checked in successfully at 10:00:00!'' \<and>
   usersMap (st checkInPending) ''stranger-0001'' = None \<and>
   checkInMessage (st (attStep jsExample
      (Settled 1 (Inr (CheckInData ''stranger-0001'' ''10:00:00''))) checkInPending)) = None \<and>
   checkInError (st (attStep jsExample
      (Settled 1 (Inr (CheckInData ''stranger-0001'' ''10:00:00''))) checkInPending))
     = Some ''Failed to check in. Please ensure User ID is valid.'' \<and>
   usersMap (st checkInEarly) ''u-1'' = Some ''Ann'' \<and>
   checkInMessage (st (attStep jsExample
      (Settled 1 (Inr (CheckInData ''u-1'' ''2025-01-01T10:00:00''))) checkInEarly))
     = Some ''User u-1... checked in successfully at 10:00:00!''"
  by (simp add: checkInPending_def checkInEarly_def att_eval formatExample_def isLocalDateTime_def isDigit_def
      digitsAt_def daysInMonth_def)

text \<open>A row shows the name the record carries, or \<^verbatim>\<open>Unknown User\<close> when it carries none.\<close>

lemma renderRow_nameCell:
  "renderRow js rc = Some row \<Longrightarrow>
   nameCell row = (if ar_userName rc = [] then ''Unknown User'' else ar_userName rc)"
  by (auto simp: renderRow_def js_or_def truthy_def split: option.splits)

text \<open>
  C3 at the input where the code departs from it. The page asks for the members first and
  for the attendance records only once that call has settled. When the first call rejects,
  the banner shows that the names could not be loaded; when the second call then
  resolves, the records are stored and rendered, and the banner is gone.
\<close>

theorem attendance_success_clears_names_error:
  "sent (attMounted :: 'n attConfig) = [GET_users] \<and>
   sent (attStep js (Settled 0 (Inl err)) attMounted) = [GET_users, GET_attendance_all] \<and>
   shown (errorLogs (st (attStep js (Settled 0 (Inl err)) attMounted))) =
     Some ''Failed to load user names for attendance records.'' \<and>
   attendanceRecords (st (attRun js [Settled 0 (Inl err), Settled 0 (Inr (AttendanceData recs))] attMounted)) = recs \<and>
   renderLogs js (st (attRun js [Settled 0 (Inl err), Settled 0 (Inr (AttendanceData recs))] attMounted)) =
     (if recs = [] then Some NoRecords else map_option Rows (those (map (renderRow js) recs))) \<and>
   shown (errorLogs (st (attRun js [Settled 0 (Inl err), Settled 0 (Inr (AttendanceData recs))] attMounted))) = None"
  by (simp add: attRun_Nil attRun_Cons attMounted_def loadInitialData_def loadInitialData_resume_def
      fetchUsersMap_resume_def fetchAttendanceLogs_awaited_def fetchAttendanceLogs_resume_def
      renderLogs_def waiting_def shown_def truthy_def Let_def)


subsection \<open>Submit controls\<close>

lemma fresh_await: "fresh c \<Longrightarrow> tid < nextId c \<Longrightarrow> waiting c tid = None \<Longrightarrow> fresh (await tid k q c)"
  by (auto simp: fresh_def waiting_def map_of_eq_None_iff)

lemma filter_other_ids:
  "tid \<notin> fst ` set xs \<Longrightarrow> filter (\<lambda>p. fst p \<noteq> tid) xs = xs"
  by (induction xs) auto

lemma count_without:
  "distinct (map fst xs) \<Longrightarrow> map_of xs tid = Some k \<Longrightarrow>
   length (filter Q (filter (\<lambda>p. fst p \<noteq> tid) xs)) + (if Q (tid, k) then 1 else 0) = length (filter Q xs)"
proof (induction xs)
  case Nil
  then show ?case by simp
next
  case (Cons x xs)
  obtain a b where x: "x = (a, b)" by (cases x)
  show ?case
  proof (cases "a = tid")
    case True
    with Cons.prems x have "b = k" "tid \<notin> fst ` set xs" by auto
    then show ?thesis using True x by (simp add: filter_other_ids)
  next
    case False
    with Cons x show ?thesis by simp
  qed
qed

lemma count_settle:
  "fresh c \<Longrightarrow> waiting c tid = Some k \<Longrightarrow>
   length (filter Q (pending (settle tid c))) + (if Q (tid, k) then 1 else 0) = length (filter Q (pending c))"
  using count_without[of "pending c" tid k Q] by (simp add: fresh_def waiting_def)

lemma attInv_step:
  assumes inv: "attInv c"
  shows "attInv (attStep js ev c)"
proof (cases ev)
  case (UI u)
  then show ?thesis using inv
    by (cases u) (auto simp: attInv_def checkInsInFlight_def handleManualCheckInSubmit_def handleCheckIn_def Let_def)
next
  case (Settled tid r)
  show ?thesis
  proof (cases "waiting c tid")
    case None
    then show ?thesis using inv Settled by simp
  next
    case (Some k)
    from inv have f: "fresh c" by (simp add: attInv_def)
    note lt = fresh_waiting_less[OF f Some]
    note cnt = count_settle[OF f Some, of "\<lambda>p. isCheckIn (snd p)"]
    have fs: "fresh (settle tid c)" using f by simp
    show ?thesis
    proof (cases "attAccepts k r")
      case False
      then show ?thesis using inv Settled Some by simp
    next
      case True
      show ?thesis
      proof (cases k)
        case UsersMapK
        have "fresh (loadInitialData_resume tid r (settle tid c))"
          unfolding loadInitialData_resume_def fetchAttendanceLogs_awaited_def Let_def
          by (rule fresh_await) (use fs lt in \<open>auto simp: fetchUsersMap_resume_def split: sum.splits payload.splits\<close>)
        moreover have "checkInsInFlight (loadInitialData_resume tid r (settle tid c)) = checkInsInFlight c"
          using cnt UsersMapK
          by (auto simp: checkInsInFlight_def loadInitialData_resume_def fetchAttendanceLogs_awaited_def
              fetchUsersMap_resume_def Let_def split: sum.splits payload.splits)
        moreover have "loadingCheckIn (st (loadInitialData_resume tid r (settle tid c))) = loadingCheckIn (st c)"
          by (auto simp: loadInitialData_resume_def fetchAttendanceLogs_awaited_def
              fetchUsersMap_resume_def Let_def split: sum.splits payload.splits)
        ultimately show ?thesis using inv Settled Some True UsersMapK by (simp add: attInv_def)
      next
        case LogsK
        then show ?thesis using inv Settled Some True cnt fs
          by (auto simp: attInv_def checkInsInFlight_def fetchAttendanceLogs_resume_def Let_def
              split: sum.splits payload.splits option.splits)
      next
        case (CheckInK um)
        have z: "filter (\<lambda>x. fst x \<noteq> tid \<and> isCheckIn (snd x)) (pending c) = []"
        proof -
          have "Suc (length (filter (\<lambda>x. fst x \<noteq> tid \<and> isCheckIn (snd x)) (pending c))) =
                length (filter (\<lambda>p. isCheckIn (snd p)) (pending c))"
            using cnt CheckInK by simp
          moreover have "length (filter (\<lambda>p. isCheckIn (snd p)) (pending c)) \<le> 1"
            using inv by (simp add: attInv_def checkInsInFlight_def)
          ultimately have "length (filter (\<lambda>x. fst x \<noteq> tid \<and> isCheckIn (snd x)) (pending c)) = 0"
            by linarith
          then show ?thesis by simp
        qed
        show ?thesis using Settled Some True CheckInK z fs
          by (auto simp: attInv_def checkInsInFlight_def handleCheckIn_resume_def fetchAttendanceLogs_def Let_def
              split: sum.splits payload.splits option.splits)
      qed
    qed
  qed
qed

lemma attInv_mounted: "attInv attMounted"
  by (simp add: attInv_def attMounted_def loadInitialData_def attInitialState_def checkInsInFlight_def)
     (simp add: fresh_def)

lemma attInv_run: "attInv c \<Longrightarrow> attInv (attRun js evs c)"
  by (induction evs arbitrary: c) (simp_all add: attRun_Nil attRun_Cons attInv_step)

lemma plansReady_eval:
  "plansEnabled PlanFormSubmit (st plansReady)"
  "planSubmitsInFlight plansReady = 0"
  "nextId plansReady = 3"
  "waiting (plansStep jsExample (''2025-01-01'', UI PlanFormSubmit) plansReady) 3 = Some PlanSubmitK"
  by (simp_all add: plansReady_def planSubmitsInFlight_def plans_eval)

text \<open>
  C4 as the code has it. On the attendance page the check-in button is disabled exactly
  while a check-in call is outstanding, whatever happens on the page, and at most one is
  outstanding. On the plans page the submit button of the plan form follows the page-wide
  \<^verbatim>\<open>loading\<close> flag: \<^verbatim>\<open>handlePlanFormSubmit\<close> disables it when it sends its request, and
  enables it again when the request settles, resolved or rejected.
\<close>

theorem submit_controls:
  "(checkInSubmitDisabled (st (attRun js evs attMounted)) \<longleftrightarrow> checkInsInFlight (attRun js evs attMounted) = 1) \<and>
   checkInsInFlight (attRun js evs attMounted) \<le> 1 \<and>
   (plansEnabled PlanFormSubmit (st p) \<longrightarrow>
      planSubmitDisabled (st (plansStep js (d, UI PlanFormSubmit) p)) \<and>
      planSubmitsInFlight (plansStep js (d, UI PlanFormSubmit) p) = Suc (planSubmitsInFlight p)) \<and>
   (waiting q tid = Some PlanSubmitK \<longrightarrow>
      \<not> planSubmitDisabled (st (plansStep js (d', Settled tid r) q)))"
proof -
  have "attInv (attRun js evs attMounted)" by (intro attInv_run attInv_mounted)
  then have a: "(checkInSubmitDisabled (st (attRun js evs attMounted)) \<longleftrightarrow> checkInsInFlight (attRun js evs attMounted) = 1) \<and>
   checkInsInFlight (attRun js evs attMounted) \<le> 1"
    by (simp add: attInv_def checkInSubmitDisabled_def)
  have b: "plansEnabled PlanFormSubmit (st p) \<longrightarrow>
      planSubmitDisabled (st (plansStep js (d, UI PlanFormSubmit) p)) \<and>
      planSubmitsInFlight (plansStep js (d, UI PlanFormSubmit) p) = Suc (planSubmitsInFlight p)"
    by (simp add: planSubmitDisabled_def planSubmitsInFlight_def handlePlanFormSubmit_def Let_def
        split: option.splits)
  have c: "waiting q tid = Some PlanSubmitK \<longrightarrow>
      \<not> planSubmitDisabled (st (plansStep js (d', Settled tid r) q))"
    by (cases r) (simp_all add: planSubmitDisabled_def handlePlanFormSubmit_resume_def fetchPlans_def
        fetchAllPlanAssignments_def Let_def)
  from a b c show ?thesis by blast
qed

theorem submit_controls_witness:
  "checkInSubmitDisabled (st checkInPending) \<and> checkInsInFlight checkInPending = 1 \<and>
   planSubmitDisabled (st (plansStep jsExample (''2025-01-01'', UI PlanFormSubmit) plansReady)) \<and>
   planSubmitsInFlight (plansStep jsExample (''2025-01-01'', UI PlanFormSubmit) plansReady) = 1 \<and>
   \<not> planSubmitDisabled (st (plansStep jsExample (''2025-01-02'', Settled 3 (Inr OtherData))
        (plansStep jsExample (''2025-01-01'', UI PlanFormSubmit) plansReady))) \<and>
   \<not> planSubmitDisabled (st (plansStep jsExample (''2025-01-02'', Settled 3 (Inl (AxiosError None)))
        (plansStep jsExample (''2025-01-01'', UI PlanFormSubmit) plansReady)))"
proof -
  let ?sub = "plansStep jsExample (''2025-01-01'', UI PlanFormSubmit) plansReady"
  let ?evs = "[Settled 0 (Inr (UsersData [memberExample ''u-1'', (memberExample ''u-123456789'')\<lparr>name := []\<rparr>])),
      Settled 0 (Inr (AttendanceData [])),
      UI (ChangeInput ''  u-1 ''),
      UI SubmitForm]"
  have cp: "attRun jsExample ?evs attMounted = checkInPending" by (simp only: checkInPending_def)
  note ok = submit_controls[of jsExample ?evs plansReady "''2025-01-01''" ?sub 3 "''2025-01-02''" "Inr OtherData",
      unfolded cp]
  note ko = submit_controls[of jsExample "[]" plansReady "''2025-01-01''" ?sub 3 "''2025-01-02''" "Inl (AxiosError None)"]
  from ok checkInPending_eval(6) plansReady_eval
  have 1: "checkInSubmitDisabled (st checkInPending) \<and> checkInsInFlight checkInPending = 1 \<and>
   planSubmitDisabled (st ?sub) \<and> planSubmitsInFlight ?sub = 1 \<and>
   \<not> planSubmitDisabled (st (plansStep jsExample (''2025-01-02'', Settled 3 (Inr OtherData)) ?sub))"
    by simp
  from ko plansReady_eval
  have 2: "\<not> planSubmitDisabled (st (plansStep jsExample (''2025-01-02'', Settled 3 (Inl (AxiosError None))) ?sub))"
    by blast
  from 1 2 show ?thesis by blast
qed

text \<open>
  C4 as stated fails on the plans page, whose \<^verbatim>\<open>loading\<close> flag is shared with the list
  fetches: on first render the submit button is disabled with no submission outstanding;
  and a fetch that finishes while a submission is outstanding enables the button, so that
  a second submission can be sent.
\<close>

theorem submit_controls_counterexample:
  "planSubmitDisabled (st (plansMounted ''2025-01-01'' :: string plansConfig)) \<and>
   planSubmitsInFlight (plansMounted ''2025-01-01'' :: string plansConfig) = 0 \<and>
   \<not> planSubmitDisabled (st plansRace) \<and>
   planSubmitsInFlight plansRace = 1 \<and>
   plansEnabled PlanFormSubmit (st plansRace) \<and>
   planSubmitsInFlight (plansStep jsExample (''2025-01-01'', UI PlanFormSubmit) plansRace) = 2"
  by (simp add: plansRace_def planSubmitDisabled_def planSubmitsInFlight_def plans_eval)


subsection \<open>The two forms of the plans page\<close>

text \<open>
  Every handler but \<^verbatim>\<open>handleEditPlanClick\<close> keeps the two forms from being open together:
  each toggle button hides the other form, and a successful submission closes its own.
\<close>

lemma forms_exclusive_other_steps:
  assumes "\<not> (showPlanForm (st c) \<and> showAssignForm (st c))"
      and "\<forall>plan. snd ev \<noteq> UI (EditPlanClick plan)"
  shows "\<not> (showPlanForm (st (plansStep js ev c)) \<and> showAssignForm (st (plansStep js ev c)))"
proof (cases ev)
  case (Pair today e)
  show ?thesis
  proof (cases e)
    case (UI u)
    then show ?thesis using assms Pair
      by (cases u) (auto simp: togglePlanFormClick_def toggleAssignFormClick_def handlePlanInputChange_def
          handlePlanFormSubmit_def cancelEditClick_def handleAssignInputChange_def handleAssignFormSubmit_def
          handleDeletePlanClick_def Let_def split: option.splits)
  next
    case (Settled tid r)
    show ?thesis
    proof (cases "waiting c tid")
      case None
      then show ?thesis using assms Pair Settled by simp
    next
      case (Some k)
      then show ?thesis using assms Pair Settled
        by (cases k) (auto simp: fetchPlans_resume_def fetchUsersForAssignment_resume_def
          fetchAllPlanAssignments_users_def fetchAllPlanAssignments_next_def fetchAllPlanAssignments_loop_def
          fetchAllPlanAssignments_failed_def handlePlanFormSubmit_resume_def handleDeletePlanClick_resume_def
          handleAssignFormSubmit_resume_def fetchPlans_def fetchAllPlanAssignments_def fetchUsersForAssignment_def
          Let_def split: sum.splits payload.splits list.splits)
    qed
  qed
qed

text \<open>
  C5 at the input where the code departs from it. With a plan listed and the assign form
  open, a click on the Edit button of the plan row runs \<^verbatim>\<open>handleEditPlanClick\<close>, which
  shows the plan form and leaves \<^verbatim>\<open>showAssignForm\<close> as it is: both forms are visible.
\<close>

theorem edit_click_leaves_assign_form_open:
  "showAssignForm (st assignFormOpen) \<and> \<not> showPlanForm (st assignFormOpen) \<and>
   plansEnabled (EditPlanClick planExample) (st assignFormOpen) \<and>
   showAssignForm (st (plansStep jsExample (''2025-01-01'', UI (EditPlanClick planExample)) assignFormOpen)) \<and>
   showPlanForm (st (plansStep jsExample (''2025-01-01'', UI (EditPlanClick planExample)) assignFormOpen))"
  by (simp add: assignFormOpen_def plans_eval)

subsection \<open>Deleting a plan\<close>

lemma delete_sent_step:
  assumes "DELETE_plans pid \<in> set (sent (plansStep js ev c))"
  shows "DELETE_plans pid \<in> set (sent c) \<or> (\<exists>d. ev = (d, UI (DeletePlanClick pid True)))"
proof (cases ev)
  case (Pair today e)
  show ?thesis
  proof (cases e)
    case (UI u)
    then show ?thesis using assms Pair
      by (cases u) (auto simp: togglePlanFormClick_def toggleAssignFormClick_def handlePlanInputChange_def
          handlePlanFormSubmit_def cancelEditClick_def handleAssignInputChange_def handleAssignFormSubmit_def
          handleEditPlanClick_def handleDeletePlanClick_def Let_def split: option.splits if_splits)
  next
    case (Settled tid r)
    show ?thesis
    proof (cases "waiting c tid")
      case None
      then show ?thesis using assms Pair Settled by simp
    next
      case (Some k)
      then show ?thesis using assms Pair Settled
        by (cases k) (auto simp: fetchPlans_resume_def fetchUsersForAssignment_resume_def
          fetchAllPlanAssignments_users_def fetchAllPlanAssignments_next_def fetchAllPlanAssignments_loop_def
          fetchAllPlanAssignments_failed_def handlePlanFormSubmit_resume_def handleDeletePlanClick_resume_def
          handleAssignFormSubmit_resume_def fetchPlans_def fetchAllPlanAssignments_def fetchUsersForAssignment_def
          Let_def split: sum.splits payload.splits list.splits if_splits)
    qed
  qed
qed

lemma delete_sent_run:
  "DELETE_plans pid \<in> set (sent (plansRun js evs c)) \<Longrightarrow>
   DELETE_plans pid \<in> set (sent c) \<or> (\<exists>d. (d, UI (DeletePlanClick pid True)) \<in> set evs)"
proof (induction evs arbitrary: c)
  case Nil
  then show ?case by (simp add: plansRun_Nil)
next
  case (Cons ev evs)
  from Cons.prems have "DELETE_plans pid \<in> set (sent (plansRun js evs (plansStep js ev c)))"
    by (simp add: plansRun_Cons)
  from Cons.IH[OF this] delete_sent_step[of pid js ev c] show ?case by auto
qed

lemma deletePending_eval:
  "waiting deletePending 3 = Some DeletePlanK"
  "sent deletePending = [GET_plans, GET_users, GET_users, DELETE_plans ''7'']"
  "pending deletePending = [(3, DeletePlanK)]"
  "nextId deletePending = 4"
  "plans (st deletePending) = [planExample]"
  by (simp_all add: deletePending_def plans_eval)

lemma waiting_spawn_two:
  assumes f: "fresh c"
  shows "waiting (spawn k2 q2 (setState h (spawn k1 q1 (setState g c)))) (nextId c) = Some k1 \<and>
         waiting (spawn k2 q2 (setState h (spawn k1 q1 (setState g c)))) (Suc (nextId c)) = Some k2 \<and>
         fresh (spawn k2 q2 (setState h (spawn k1 q1 (setState g c))))"
proof -
  let ?c1 = "spawn k1 q1 (setState g c)"
  have f1: "fresh ?c1" using f by simp
  have w1: "waiting ?c1 (nextId c) = Some k1"
    using waiting_spawn_new[of "setState g c" k1 q1] f by simp
  have "waiting (spawn k2 q2 (setState h ?c1)) (nextId c) = waiting (setState h ?c1) (nextId c)"
    by (rule waiting_spawn_other) simp
  moreover have "waiting (spawn k2 q2 (setState h ?c1)) (Suc (nextId c)) = Some k2"
    using waiting_spawn_new[of "setState h ?c1" k2 q2] f1 by simp
  ultimately show ?thesis using w1 f1 by simp
qed

text \<open>
  C8. In every run of the plans page a \<^verbatim>\<open>DELETE /plans/{id}\<close> request is sent only by a click
  on Delete that was confirmed; \<^verbatim>\<open>handleDeletePlanClick\<close> does nothing when the
  confirmation is declined and sends exactly that request when it is given. When the
  delete call resolves, in any configuration the page can reach, two refreshes start:
  \<^verbatim>\<open>fetchPlans\<close> sends \<^verbatim>\<open>GET /plans\<close> and \<^verbatim>\<open>fetchAllPlanAssignments\<close> sends its
  \<^verbatim>\<open>GET /users\<close>. Both run to their end, whatever else happens in between: when the plans
  call resolves, \<^verbatim>\<open>plans\<close> is the list of the response; when the member list and then one
  result per member have come in, \<^verbatim>\<open>planAssignments\<close> is the concatenation of the results.
\<close>

theorem deletePlan_confirmed_then_refreshed:
  assumes reach: "q = plansRun js evs0 (plansMounted d0)"
      and w: "waiting q tid = Some DeletePlanK"
  shows "(DELETE_plans pid \<in> set (sent q) \<longrightarrow> (\<exists>d. (d, UI (DeletePlanClick pid True)) \<in> set evs0)) \<and>
   handleDeletePlanClick pid False c = c \<and>
   sent (handleDeletePlanClick pid True c) = sent c @ [DELETE_plans pid] \<and>
   pending (handleDeletePlanClick pid True c) = pending c @ [(nextId c, DeletePlanK)] \<and>
   sent (plansStep js (d', Settled tid (Inr body)) q) = sent q @ [GET_plans, GET_users] \<and>
   pending (plansStep js (d', Settled tid (Inr body)) q) =
     filter (\<lambda>p. fst p \<noteq> tid) (pending q) @ [(nextId q, FetchPlansK), (Suc (nextId q), AllUsersK)] \<and>
   ((\<forall>ev \<in> set g. \<not> settles (nextId q) ev) \<longrightarrow>
      plans (st (plansRun js (g @ [(d, Settled (nextId q) (Inr (PlansData ps)))])
                   (plansStep js (d', Settled tid (Inr body)) q))) = ps) \<and>
   (map snd (filter (settles (Suc (nextId q))) evs) =
      Settled (Suc (nextId q)) (Inr (UsersData us)) # assignmentResults (Suc (nextId q)) rs \<and>
    length rs = length us \<and> settles (Suc (nextId q)) (last evs) \<longrightarrow>
      planAssignments (st (plansRun js evs (plansStep js (d', Settled tid (Inr body)) q))) = concat rs)"
proof -
  let ?q' = "plansStep js (d', Settled tid (Inr body)) q"
  let ?n = "nextId q"
  have f: "fresh q" unfolding reach by (intro fresh_plansRun fresh_plansMounted)
  have m: "DELETE_plans pid \<notin> set (sent (plansMounted d0 :: 'a plansConfig))"
    by (simp add: plansMounted_def fetchPlans_def fetchUsersForAssignment_def fetchAllPlanAssignments_def Let_def)
  have a: "DELETE_plans pid \<in> set (sent q) \<longrightarrow> (\<exists>d. (d, UI (DeletePlanClick pid True)) \<in> set evs0)"
    using delete_sent_run[of pid js evs0 "plansMounted d0"] m unfolding reach by blast
  have b: "handleDeletePlanClick pid False c = c \<and>
   sent (handleDeletePlanClick pid True c) = sent c @ [DELETE_plans pid] \<and>
   pending (handleDeletePlanClick pid True c) = pending c @ [(nextId c, DeletePlanK)]"
    by (simp add: handleDeletePlanClick_def Let_def)
  have q': "?q' = setState (\<lambda>s. s\<lparr>loading := False\<rparr>)
       (spawn AllUsersK GET_users (setState (\<lambda>s. s\<lparr>loading := True\<rparr>)
         (spawn FetchPlansK GET_plans (setState (\<lambda>s. s\<lparr>loading := True\<rparr>) (settle tid q)))))"
    using w by (simp add: handleDeletePlanClick_resume_def fetchPlans_def fetchAllPlanAssignments_def Let_def)
  have c: "sent ?q' = sent q @ [GET_plans, GET_users] \<and>
     pending ?q' = filter (\<lambda>p. fst p \<noteq> tid) (pending q) @ [(?n, FetchPlansK), (Suc ?n, AllUsersK)]"
    unfolding q' by simp
  have fs: "fresh (settle tid q)" using f by simp
  note two = waiting_spawn_two[OF fs, of AllUsersK GET_users "\<lambda>s. s\<lparr>loading := True\<rparr>"
      FetchPlansK GET_plans "\<lambda>s. s\<lparr>loading := True\<rparr>"]
  have wp: "waiting ?q' ?n = Some FetchPlansK" and wa: "waiting ?q' (Suc ?n) = Some AllUsersK"
    and f': "fresh ?q'"
    unfolding q' using two by simp_all
  have d: "(\<forall>ev \<in> set g. \<not> settles ?n ev) \<longrightarrow>
      plans (st (plansRun js (g @ [(d, Settled ?n (Inr (PlansData ps)))]) ?q')) = ps"
  proof
    assume o: "\<forall>ev \<in> set g. \<not> settles ?n ev"
    note lt = fresh_waiting_less[OF f' wp]
    from gap_run[OF f' lt o, of js] wp
    have "waiting (plansRun js g ?q') ?n = Some FetchPlansK" by simp
    then show "plans (st (plansRun js (g @ [(d, Settled ?n (Inr (PlansData ps)))]) ?q')) = ps"
      by (simp add: plansRun_append plansRun_Cons plansRun_Nil fetchPlans_resume_def Let_def)
  qed
  have e: "map snd (filter (settles (Suc ?n)) evs) =
      Settled (Suc ?n) (Inr (UsersData us)) # assignmentResults (Suc ?n) rs \<and>
    length rs = length us \<and> settles (Suc ?n) (last evs) \<longrightarrow>
      planAssignments (st (plansRun js evs ?q')) = concat rs"
  proof (intro impI, elim conjE)
    assume own: "map snd (filter (settles (Suc ?n)) evs) =
      Settled (Suc ?n) (Inr (UsersData us)) # assignmentResults (Suc ?n) rs"
      and len: "length rs = length us" and fin: "settles (Suc ?n) (last evs)"
    from f' wa own len fin show "planAssignments (st (plansRun js evs ?q')) = concat rs"
      by (rule aggregation_concat)
  qed
  from a b c d e show ?thesis by blast
qed

theorem deletePlan_confirmed_then_refreshed_witness:
  "sent (plansStep jsExample (''2025-01-02'', Settled 3 (Inr OtherData)) deletePending)
     = [GET_plans, GET_users, GET_users, DELETE_plans ''7'', GET_plans, GET_users] \<and>
   plans (st (plansRun jsExample
      [(''2025-01-02'', Settled 5 (Inr (UsersData [memberExample ''m1'', memberExample ''m2'']))),
       (''2025-01-02'', Settled 4 (Inr (PlansData [])))]
      (plansStep jsExample (''2025-01-02'', Settled 3 (Inr OtherData)) deletePending))) = [] \<and>
   planAssignments (st (plansRun jsExample
      [(''2025-01-02'', Settled 5 (Inr (UsersData [memberExample ''m1'', memberExample ''m2'']))),
       (''2025-01-02'', Settled 4 (Inr (PlansData []))),
       (''2025-01-02'', Settled 5 (Inr (AssignmentsData [assignmentExample ''12'']))),
       (''2025-01-02'', Settled 5 (Inr (AssignmentsData [assignmentExample ''13''])))]
      (plansStep jsExample (''2025-01-02'', Settled 3 (Inr OtherData)) deletePending)))
     = [assignmentExample ''12'', assignmentExample ''13''] \<and>
   (\<exists>d. (d, UI (DeletePlanClick ''7'' True)) \<in> set
     [(''2025-01-01'', Settled 0 (Inr (PlansData [planExample]))),
      (''2025-01-01'', Settled 1 (Inr (UsersData [memberExample ''m1'']))),
      (''2025-01-01'', Settled 2 (Inr (UsersData []))),
      (''2025-01-01'', UI (DeletePlanClick ''7'' True)) ::
        string \<times> (string plansUI, string response) event])"
proof -
  let ?before = "[(''2025-01-01'', Settled 0 (Inr (PlansData [planExample]))),
      (''2025-01-01'', Settled 1 (Inr (UsersData [memberExample ''m1'']))),
      (''2025-01-01'', Settled 2 (Inr (UsersData []))),
      (''2025-01-01'', UI (DeletePlanClick ''7'' True))] ::
      (string \<times> (string plansUI, string response) event) list"
  let ?us = "[memberExample ''m1'', memberExample ''m2'']"
  let ?rs = "[[assignmentExample ''12''], [assignmentExample ''13'']]"
  let ?gap = "[(''2025-01-02'', Settled 5 (Inr (UsersData ?us)))] ::
      (string \<times> (string plansUI, string response) event) list"
  let ?evs = "[(''2025-01-02'', Settled 5 (Inr (UsersData ?us))),
       (''2025-01-02'', Settled 4 (Inr (PlansData []))),
       (''2025-01-02'', Settled 5 (Inr (AssignmentsData [assignmentExample ''12'']))),
       (''2025-01-02'', Settled 5 (Inr (AssignmentsData [assignmentExample ''13''])))] ::
      (string \<times> (string plansUI, string response) event) list"
  let ?after = "plansStep jsExample (''2025-01-02'', Settled 3 (Inr OtherData)) deletePending"
  note reach = deletePending_def
  note w = deletePending_eval(1)
  note t = deletePlan_confirmed_then_refreshed[OF reach w, of "''7''" deletePending "''2025-01-02''" OtherData
      ?gap "''2025-01-02''" "[]" ?evs ?us ?rs, unfolded deletePending_eval(4)]
  have s: "DELETE_plans ''7'' \<in> set (sent deletePending)" by (simp add: deletePending_eval)
  have gap: "\<forall>ev \<in> set ?gap. \<not> settles 4 ev" by (simp add: settles_def)
  have own: "map snd (filter (settles (Suc 4)) ?evs) =
      Settled (Suc 4) (Inr (UsersData ?us)) # assignmentResults (Suc 4) ?rs \<and>
    length ?rs = length ?us \<and> settles (Suc 4) (last ?evs)"
    by (simp add: settles_def)
  note t1 = t[THEN conjunct1]
  note t5 = t[THEN conjunct2, THEN conjunct2, THEN conjunct2, THEN conjunct2, THEN conjunct1]
  note t7 = t[THEN conjunct2, THEN conjunct2, THEN conjunct2, THEN conjunct2, THEN conjunct2,
      THEN conjunct2, THEN conjunct1]
  note t8 = t[THEN conjunct2, THEN conjunct2, THEN conjunct2, THEN conjunct2, THEN conjunct2,
      THEN conjunct2, THEN conjunct2]
  from t1 s have 1: "\<exists>d. (d, UI (DeletePlanClick ''7'' True)) \<in> set ?before" by (rule mp)
  note 2 = t5
  from t7 gap have 3: "plans (st (plansRun jsExample (?gap @ [(''2025-01-02'', Settled 4 (Inr (PlansData [])))]) ?after)) = []"
    by (rule mp)
  from t8 own have 4: "planAssignments (st (plansRun jsExample ?evs ?after)) = concat ?rs" by (rule mp)
  from 1 2 3 4 show ?thesis by (simp add: deletePending_eval(2))
qed


subsection \<open>The members page\<close>

lemma usersRun_Nil: "usersRun js [] c = c" by (simp add: usersRun_def)
lemma usersRun_Cons: "usersRun js (e # es) c = usersRun js es (usersStep js e c)" by (simp add: usersRun_def)

lemmas users_eval = usersRun_Nil usersRun_Cons usersMounted_def usersInitialState_def
  fetchUsers_def fetchUsers_resume_def handleInputChange_def handleFormSubmit_def
  handleFormSubmit_resume_def handleEditClick_def handleDeleteClick_def handleDeleteClick_resume_def
  toggleFormClick_def cancelUserEditClick_def defaultUserForm_def jsExample_def memberExample_def
  waiting_def Let_def

lemma memberSubmitPending_eval:
  "waiting memberSubmitPending 1 = Some UFormSubmitK"
  "showForm (st memberSubmitPending)"
  "formData (st memberSubmitPending) = \<lparr>uf_name = ''Bob'', uf_age = ''41'', uf_gender = ''Male'',
     uf_contactNumber = ''5551234'', uf_membershipStatus = ''Active'', uf_joiningDate = ''2024-12-24''\<rparr>"
  "sent memberSubmitPending = [GET_users, POST_users \<lparr>up_name = ''Bob'', up_age = ''41'', up_gender = ''Male'',
     up_contactNumber = ''5551234'', up_membershipStatus = ''Active'', up_joiningDate = ''2024-12-24''\<rparr>]"
  "pending memberSubmitPending = [(1, UFormSubmitK)]"
  "nextId memberSubmitPending = 2"
  by (simp_all add: memberSubmitPending_def users_eval)

text \<open>
  C9. When the call of \<^verbatim>\<open>handleFormSubmit\<close> (create or update) resolves, the form is
  closed, its fields are the defaults (status Inactive, joining date today), and
  \<^verbatim>\<open>fetchUsers\<close> has sent \<^verbatim>\<open>GET /users\<close>; when that call resolves, the list is the list of
  the response. When the call of \<^verbatim>\<open>handleFormSubmit\<close> rejects, the form is as open as it
  was, the fields and the list are unchanged, nothing is sent, and the error is shown.
\<close>

theorem member_submit_contract:
  "(waiting c tid = Some UFormSubmitK \<longrightarrow>
      \<not> showForm (st (usersStep js (today, Settled tid (Inr body)) c)) \<and>
      editingUser (st (usersStep js (today, Settled tid (Inr body)) c)) = None \<and>
      formData (st (usersStep js (today, Settled tid (Inr body)) c)) = defaultUserForm today \<and>
      uf_membershipStatus (formData (st (usersStep js (today, Settled tid (Inr body)) c))) = ''Inactive'' \<and>
      uf_joiningDate (formData (st (usersStep js (today, Settled tid (Inr body)) c))) = today \<and>
      sent (usersStep js (today, Settled tid (Inr body)) c) = sent c @ [GET_users] \<and>
      pending (usersStep js (today, Settled tid (Inr body)) c) =
        filter (\<lambda>p. fst p \<noteq> tid) (pending c) @ [(nextId c, UFetchUsersK)] \<and>
      showForm (st (usersStep js (today, Settled tid (Inl err)) c)) = showForm (st c) \<and>
      formData (st (usersStep js (today, Settled tid (Inl err)) c)) = formData (st c) \<and>
      us_users (st (usersStep js (today, Settled tid (Inl err)) c)) = us_users (st c) \<and>
      sent (usersStep js (today, Settled tid (Inl err)) c) = sent c \<and>
      shown (us_error (st (usersStep js (today, Settled tid (Inl err)) c))) =
        Some ''Failed to save user. Please check your input.'') \<and>
   (waiting q tid' = Some UFetchUsersK \<longrightarrow>
      us_users (st (usersStep js (d, Settled tid' (Inr (UsersData us))) q)) = us)"
  by (simp add: handleFormSubmit_resume_def fetchUsers_def fetchUsers_resume_def defaultUserForm_def
      shown_def truthy_def Let_def)

theorem member_submit_contract_witness:
  "\<not> showForm (st (usersStep jsExample (''2025-01-02'', Settled 1 (Inr OtherData)) memberSubmitPending)) \<and>
   formData (st (usersStep jsExample (''2025-01-02'', Settled 1 (Inr OtherData)) memberSubmitPending))
     = \<lparr>uf_name = [], uf_age = [], uf_gender = [], uf_contactNumber = [],
        uf_membershipStatus = ''Inactive'', uf_joiningDate = ''2025-01-02''\<rparr> \<and>
   sent (usersStep jsExample (''2025-01-02'', Settled 1 (Inr OtherData)) memberSubmitPending)
     = sent memberSubmitPending @ [GET_users] \<and>
   us_users (st (usersStep jsExample (''2025-01-02'', Settled 2 (Inr (UsersData [memberExample ''m2''])))
      (usersStep jsExample (''2025-01-02'', Settled 1 (Inr OtherData)) memberSubmitPending)))
     = [memberExample ''m2''] \<and>
   showForm (st (usersStep jsExample (''2025-01-02'', Settled 1 (Inl (AxiosError None))) memberSubmitPending)) \<and>
   uf_name (formData (st (usersStep jsExample (''2025-01-02'', Settled 1 (Inl (AxiosError None))) memberSubmitPending)))
     = ''Bob''"
proof -
  let ?ok = "usersStep jsExample (''2025-01-02'', Settled 1 (Inr OtherData)) memberSubmitPending"
  have w2: "waiting ?ok 2 = Some UFetchUsersK"
    using memberSubmitPending_eval(1,5,6)
    by (simp add: handleFormSubmit_resume_def fetchUsers_def Let_def waiting_def)
  from member_submit_contract[of memberSubmitPending 1 jsExample "''2025-01-02''" OtherData "AxiosError None"
      ?ok 2 "''2025-01-02''" "[memberExample ''m2'']"]
    memberSubmitPending_eval(1,2,3) w2
  show ?thesis by (simp add: defaultUserForm_def)
qed


end
